theory Spec2Isabelle
  imports Complex_Main
begin

section \<open>JavaScript values used by the search route\<close>

text \<open>
  The route handler \<^verbatim>\<open>src/webapp/src/app/api/search/route.ts\<close> is embedded function by
  function. A JavaScript string is a sequence of UTF-16 code units; the model covers the
  strings whose code units are below 256 (the Latin-1 range), one \<^typ>\<open>char\<close> per code
  unit. On that range \<^verbatim>\<open>toLowerCase\<close>, \<^verbatim>\<open>trim\<close> and the regular expression classes
  are written out exactly.
\<close>

subsection \<open>Strings\<close>

text \<open>White space of \<^verbatim>\<open>String.prototype.trim\<close> and of the class \<^verbatim>\<open>\s\<close>: TAB, LF, VT, FF,
  CR, SPACE and NBSP are the ones below 256.\<close>

definition is_space :: "char \<Rightarrow> bool" where
  "is_space c = (c \<in> set [CHR 0x09, CHR 0x0A, CHR 0x0B, CHR 0x0C, CHR 0x0D, CHR '' '', CHR 0xA0])"

definition trim :: "string \<Rightarrow> string" where
  "trim s = rev (dropWhile is_space (rev (dropWhile is_space s)))"

text \<open>\<^verbatim>\<open>toLowerCase\<close>: the letters A-Z and the Latin-1 capitals 0xC0-0xDE (without the
  multiplication sign 0xD7) move up by 32; every other code unit below 256 is kept.\<close>

definition lower_char :: "char \<Rightarrow> char" where
  "lower_char c =
     (let n = (of_char c :: nat)
      in if (65 \<le> n \<and> n \<le> 90) \<or> (192 \<le> n \<and> n \<le> 222 \<and> n \<noteq> 215)
         then char_of (n + 32) else c)"

definition toLowerCase :: "string \<Rightarrow> string" where
  "toLowerCase s = map lower_char s"

fun startsWith :: "string \<Rightarrow> string \<Rightarrow> bool" where
  "startsWith s [] = True"
| "startsWith [] (p # ps) = False"
| "startsWith (c # cs) (p # ps) = (c = p \<and> startsWith cs ps)"

text \<open>\<^verbatim>\<open>s.includes(sub)\<close> (the name \<open>includes\<close> is reserved in Isabelle).\<close>

fun includes_str :: "string \<Rightarrow> string \<Rightarrow> bool" where
  "includes_str [] sub = (sub = [])"
| "includes_str (c # cs) sub = (startsWith (c # cs) sub \<or> includes_str cs sub)"

text \<open>The nullish coalescing operator \<^verbatim>\<open>a ?? b\<close> on optional values.\<close>

definition coalesce :: "'a option \<Rightarrow> 'a option \<Rightarrow> 'a option" where
  "coalesce a b = (case a of None \<Rightarrow> b | Some x \<Rightarrow> Some x)"

text \<open>A value of type \<^verbatim>\<open>unknown\<close>, as far as the record fields of the provider's payload
  reach: absent, a string, a number or a boolean.\<close>

datatype unknown = Undefined | String string | Number int | Boolean bool

definition str :: "string option \<Rightarrow> unknown" where
  "str v = (case v of None \<Rightarrow> Undefined | Some s \<Rightarrow> String s)"

definition num :: "int option \<Rightarrow> unknown" where
  "num v = (case v of None \<Rightarrow> Undefined | Some n \<Rightarrow> Number n)"

text \<open>\<^verbatim>\<open>typeof value === "string" && value.trim() ? value.trim() : undefined\<close>\<close>

definition ensureString :: "unknown \<Rightarrow> string option" where
  "ensureString v =
     (case v of
        String s \<Rightarrow> (if trim s \<noteq> [] then Some (trim s) else None)
      | _ \<Rightarrow> None)"

datatype js_error = RangeError | TypeError | SyntaxError

subsection \<open>The provider's records\<close>

text \<open>Amounts are finite JSON numbers; nothing is computed from them, they are tested for
  truthiness (non-zero) and handed to the number formatter.\<close>

record JobSalary =
  currency :: "string option"
  salary_min :: "rat option"
  salary_max :: "rat option"
  salary_period :: "string option"
  min_salary :: "rat option"
  max_salary :: "rat option"
  period :: "string option"

record JobHighlights =
  Qualifications :: "string list option"
  Responsibilities :: "string list option"
  Benefits :: "string list option"

text \<open>The epoch-seconds field holds an integer-valued number.\<close>

record JSearchJob =
  job_id :: "string option"
  job_title :: "string option"
  employer_name :: "string option"
  employer_website :: "string option"
  employer_email :: "string option"
  job_city :: "string option"
  job_state :: "string option"
  job_country :: "string option"
  job_is_remote :: "bool option"
  job_employment_type :: "string option"
  job_apply_link :: "string option"
  job_description :: "string option"
  job_highlights :: "JobHighlights option"
  job_salary :: "JobSalary option"
  job_posted_at_timestamp :: "int option"
  job_posted_at_datetime_utc :: "string option"
  job_posted_at :: "string option"

record JobContact =
  label :: string
  "value" :: string

subsection \<open>The runtime library\<close>

text \<open>
  What the code takes from the JavaScript runtime without defining it is a parameter:
  the text \<^verbatim>\<open>Intl.NumberFormat\<close> produces for an amount, the time value \<^verbatim>\<open>new Date(s)\<close>
  reads from a string (\<open>None\<close> is \<^verbatim>\<open>NaN\<close>, the invalid date) and the text of
  \<^verbatim>\<open>toLocaleDateString\<close> for a valid time value.
\<close>

record nf_options =
  nf_locale :: string
  nf_style :: string
  nf_currency :: string
  nf_maximumFractionDigits :: nat

record runtime =
  nf_format :: "nf_options \<Rightarrow> rat \<Rightarrow> string"
  Date_parse :: "string \<Rightarrow> int option"
  toLocaleDateString :: "int \<Rightarrow> string"

text \<open>The constructor \<^verbatim>\<open>new Intl.NumberFormat\<close> throws a \<^verbatim>\<open>RangeError\<close> unless the currency
  code is well formed: three ASCII letters.\<close>

definition is_ascii_letter :: "char \<Rightarrow> bool" where
  "is_ascii_letter c =
     (c \<in> set ''abcdefghijklmnopqrstuvwxyzABCDEFGHIJKLMNOPQRSTUVWXYZ'')"

definition IsWellFormedCurrencyCode :: "string \<Rightarrow> bool" where
  "IsWellFormedCurrencyCode c = (length c = 3 \<and> list_all is_ascii_letter c)"

definition NumberFormat :: "runtime \<Rightarrow> nf_options \<Rightarrow> js_error + (rat \<Rightarrow> string)" where
  "NumberFormat rt opts =
     (if IsWellFormedCurrencyCode (nf_currency opts) then Inr (nf_format rt opts)
      else Inl RangeError)"

section \<open>Salary formatting\<close>

definition truthy :: "rat option \<Rightarrow> bool" where
  "truthy v = (case v of None \<Rightarrow> False | Some x \<Rightarrow> x \<noteq> 0)"

text \<open>The suffix \<^verbatim>\<open>resolvedPeriod ? ` / ${resolvedPeriod}` : ""\<close>.\<close>

definition period_suffix :: "string option \<Rightarrow> string" where
  "period_suffix resolvedPeriod =
     (case resolvedPeriod of
        None \<Rightarrow> []
      | Some p \<Rightarrow> (if p \<noteq> [] then '' / '' @ p else []))"

definition formatSalary :: "runtime \<Rightarrow> JSearchJob \<Rightarrow> js_error + string option" where
  "formatSalary rt job =
     (case job_salary job of
        None \<Rightarrow> Inr None
      | Some salary \<Rightarrow>
          (let minv = coalesce (salary_min salary) (min_salary salary);
               maxv = coalesce (salary_max salary) (max_salary salary);
               resolvedPeriod = coalesce (salary_period salary) (period salary)
           in if \<not> truthy minv \<and> \<not> truthy maxv then Inr None
              else
                (case NumberFormat rt
                        \<lparr>nf_locale = ''en-IN'', nf_style = ''currency'',
                         nf_currency = (case currency salary of None \<Rightarrow> ''INR'' | Some c \<Rightarrow> c),
                         nf_maximumFractionDigits = 0\<rparr> of
                   Inl e \<Rightarrow> Inl e
                 | Inr formatter \<Rightarrow>
                     (let single =
                            (case coalesce minv maxv of
                               Some v \<Rightarrow>
                                 (if v \<noteq> 0
                                  then Some (formatter v @ period_suffix resolvedPeriod)
                                  else None)
                             | None \<Rightarrow> None)
                      in case (minv, maxv) of
                           (Some a, Some b) \<Rightarrow>
                             (if a \<noteq> 0 \<and> b \<noteq> 0
                              then Inr (Some (formatter a @ '' - '' @ formatter b
                                              @ period_suffix resolvedPeriod))
                              else Inr single)
                         | _ \<Rightarrow> Inr single))))"

section \<open>Posting age\<close>

text \<open>Decimal text of an integer, as a template literal prints it.\<close>

function nat_toString :: "nat \<Rightarrow> string" where
  "nat_toString n =
     (if n < 10 then [''0123456789'' ! n]
      else nat_toString (n div 10) @ [''0123456789'' ! (n mod 10)])"
  by pat_completeness auto
termination
  by (relation "measure id") auto

definition int_toString :: "int \<Rightarrow> string" where
  "int_toString i = (if i < 0 then CHR ''-'' # nat_toString (nat (- i)) else nat_toString (nat i))"

text \<open>A \<^verbatim>\<open>Date\<close> object holds a time value in milliseconds or is invalid (its time value
  is \<^verbatim>\<open>NaN\<close>); \<^verbatim>\<open>new Date(n)\<close> of a number is valid up to 8.64e15 ms either side of
  the epoch.\<close>

datatype Date = Date int | Invalid_Date

definition new_Date :: "int \<Rightarrow> Date" where
  "new_Date t = (if \<bar>t\<bar> \<le> 8640000000000000 then Date t else Invalid_Date)"

text \<open>
  \<open>now\<close> is the time value of \<^verbatim>\<open>new Date()\<close> at the call. Comparisons with \<^verbatim>\<open>NaN\<close> are
  false, so an invalid date falls through both tests to \<^verbatim>\<open>toLocaleDateString\<close>, which
  prints \<^verbatim>\<open>Invalid Date\<close>. \<^verbatim>\<open>Math.floor\<close> of the quotient is \<open>div\<close> on integers.
\<close>

definition formatPosted :: "runtime \<Rightarrow> int \<Rightarrow> JSearchJob \<Rightarrow> string option" where
  "formatPosted rt now dateSource =
     (let iso = coalesce
                  (coalesce (ensureString (str (job_posted_at_datetime_utc dateSource)))
                            (ensureString (str (job_posted_at dateSource))))
                  (ensureString (num (job_posted_at_timestamp dateSource)));
          date0 = (case iso of
                     None \<Rightarrow> None
                   | Some s \<Rightarrow>
                       (case Date_parse rt s of None \<Rightarrow> None | Some t \<Rightarrow> Some (Date t)));
          date = (case date0 of
                    Some d \<Rightarrow> Some d
                  | None \<Rightarrow>
                      (case job_posted_at_timestamp dateSource of
                         Some ts \<Rightarrow> Some (new_Date (ts * 1000))
                       | None \<Rightarrow> None))
      in case date of
           None \<Rightarrow> None
         | Some Invalid_Date \<Rightarrow> Some ''Invalid Date''
         | Some (Date t) \<Rightarrow>
             (let diffMs = now - t;
                  diffDays = diffMs div (1000 * 60 * 60 * 24)
              in if diffDays < 1
                 then (let diffHours = diffMs div (1000 * 60 * 60)
                       in Some (if diffHours \<le> 1 then ''Posted less than an hour ago''
                                else ''Posted '' @ int_toString diffHours @ ''h ago''))
                 else if diffDays < 7
                 then Some (if diffDays = 1 then ''Posted yesterday''
                            else ''Posted '' @ int_toString diffDays @ '' days ago'')
                 else Some (toLocaleDateString rt t)))"

section \<open>Contact extraction\<close>

subsection \<open>The two regular expressions\<close>

text \<open>
  Both patterns are sequences of greedily quantified character classes. \<open>Rep cls lo hi\<close>
  is the class \<open>cls\<close> repeated at least \<open>lo\<close> and at most \<open>hi\<close> times (\<open>None\<close>: no upper
  bound). The matcher is the backtracking one of the language: an item first takes as
  many characters as it can and gives them back one at a time until the rest of the
  pattern matches.
\<close>

datatype item = Rep (item_class: "char \<Rightarrow> bool") (item_min: nat) (item_max: "nat option")

text \<open>\<open>try_counts cont s lo k\<close>: the item takes \<open>k\<close> characters, then \<open>k - 1\<close>, down to \<open>lo\<close>,
  until the continuation \<open>cont\<close> matches what is left.\<close>

fun try_counts :: "(string \<Rightarrow> nat option) \<Rightarrow> string \<Rightarrow> nat \<Rightarrow> nat \<Rightarrow> nat option" where
  "try_counts cont s lo 0 =
     (if 0 < lo then None
      else (case cont s of Some m \<Rightarrow> Some m | None \<Rightarrow> None))"
| "try_counts cont s lo (Suc j) =
     (if Suc j < lo then None
      else (case cont (drop (Suc j) s) of
              Some m \<Rightarrow> Some (Suc j + m)
            | None \<Rightarrow> try_counts cont s lo j))"

text \<open>\<open>match_here re s\<close>: the length of the match of \<open>re\<close> that starts at the first
  character of \<open>s\<close>, if there is one.\<close>

fun match_here :: "item list \<Rightarrow> string \<Rightarrow> nat option" where
  "match_here [] s = Some 0"
| "match_here (Rep cls lo hi # re) s =
     (let run = length (takeWhile cls s);
          most = (case hi of None \<Rightarrow> run | Some h \<Rightarrow> min h run)
      in try_counts (match_here re) s lo most)"

text \<open>\<^verbatim>\<open>s.match(re)\<close> with the flag \<^verbatim>\<open>g\<close>: all matches from left to right, the search going
  on where the last match ended (one further on after an empty match). The empty list
  stands for the \<^verbatim>\<open>null\<close> of no match.\<close>

function match_all :: "item list \<Rightarrow> string \<Rightarrow> string list" where
  "match_all re [] = (case match_here re [] of Some n \<Rightarrow> [[]] | None \<Rightarrow> [])"
| "match_all re (c # cs) =
     (case match_here re (c # cs) of
        Some n \<Rightarrow> take n (c # cs) # match_all re (drop (n - 1) cs)
      | None \<Rightarrow> match_all re cs)"
  by pat_completeness auto
termination
  by (relation "measure (\<lambda>(re, s). length s)") auto

definition is_digit :: "char \<Rightarrow> bool" where
  "is_digit c = (c \<in> set ''0123456789'')"

text \<open>\<^verbatim>\<open>/[a-z0-9._%+-]+@[a-z0-9.-]+\.[a-z]{2,}/gi\<close>; under the flag \<^verbatim>\<open>i\<close> the class
  \<^verbatim>\<open>[a-z]\<close> is the ASCII letters of both cases.\<close>

definition EMAIL_REGEX :: "item list" where
  "EMAIL_REGEX =
     [Rep (\<lambda>c. is_ascii_letter c \<or> is_digit c \<or> c \<in> set ''._%+-'') 1 None,
      Rep (\<lambda>c. c = CHR ''@'') 1 (Some 1),
      Rep (\<lambda>c. is_ascii_letter c \<or> is_digit c \<or> c \<in> set ''.-'') 1 None,
      Rep (\<lambda>c. c = CHR ''.'') 1 (Some 1),
      Rep is_ascii_letter 2 None]"

text \<open>\<^verbatim>\<open>/\+?[0-9][0-9\s().-]{6,}[0-9]/g\<close>\<close>

definition PHONE_REGEX :: "item list" where
  "PHONE_REGEX =
     [Rep (\<lambda>c. c = CHR ''+'') 0 (Some 1),
      Rep is_digit 1 (Some 1),
      Rep (\<lambda>c. is_digit c \<or> is_space c \<or> c \<in> set ''().-'') 6 None,
      Rep is_digit 1 (Some 1)]"

text \<open>\<^verbatim>\<open>match.replace(/\s+/g, " ")\<close>: every run of white space becomes one space.\<close>

function collapse_spaces :: "string \<Rightarrow> string" where
  "collapse_spaces [] = []"
| "collapse_spaces (c # cs) =
     (if is_space c then CHR '' '' # collapse_spaces (dropWhile is_space cs)
      else c # collapse_spaces cs)"
  by pat_completeness auto
termination
  by (relation "measure length") (auto simp: length_dropWhile_le less_Suc_eq_le)

subsection \<open>Insertion-ordered Map and Set\<close>

text \<open>A \<^verbatim>\<open>Map\<close> keeps its entries in the order of first insertion of each key;
  \<^verbatim>\<open>set\<close> on a key that is present replaces the value where the entry stands. A \<^verbatim>\<open>Set\<close>
  keeps its elements in the order of first insertion.\<close>

type_synonym ('k, 'v) js_map = "('k \<times> 'v) list"

definition Map_has :: "('k, 'v) js_map \<Rightarrow> 'k \<Rightarrow> bool" where
  "Map_has m k = (k \<in> set (map fst m))"

fun Map_set :: "'k \<Rightarrow> 'v \<Rightarrow> ('k, 'v) js_map \<Rightarrow> ('k, 'v) js_map" where
  "Map_set k v [] = [(k, v)]"
| "Map_set k v (p # ps) = (if fst p = k then (k, v) # ps else p # Map_set k v ps)"

definition Map_values :: "('k, 'v) js_map \<Rightarrow> 'v list" where
  "Map_values m = map snd m"

definition Set_add :: "'a \<Rightarrow> 'a list \<Rightarrow> 'a list" where
  "Set_add x xs = (if x \<in> set xs then xs else xs @ [x])"

subsection \<open>extractContacts\<close>

text \<open>The three \<^verbatim>\<open>forEach\<close> bodies.\<close>

definition add_email :: "string \<Rightarrow> (string, JobContact) js_map \<Rightarrow> (string, JobContact) js_map" where
  "add_email email contactMap =
     (if \<not> Map_has contactMap email
      then Map_set email
             \<lparr>label = (if includes_str email ''hr'' then ''HR email'' else ''Contact email''),
              value = email\<rparr> contactMap
      else contactMap)"

definition add_phone :: "string \<Rightarrow> string list \<Rightarrow> string list" where
  "add_phone match phones =
     (let normalized = trim (collapse_spaces match)
      in if length normalized \<ge> 8 then Set_add normalized phones else phones)"

definition put_phone :: "string \<Rightarrow> (string, JobContact) js_map \<Rightarrow> (string, JobContact) js_map" where
  "put_phone phone contactMap =
     (let key = ''phone-'' @ phone
      in if \<not> Map_has contactMap key
         then Map_set key \<lparr>label = ''Phone'', value = phone\<rparr> contactMap
         else contactMap)"

definition extractContacts :: "JSearchJob \<Rightarrow> JobContact list" where
  "extractContacts job =
     (let description = (case ensureString (str (job_description job)) of
                           None \<Rightarrow> [] | Some d \<Rightarrow> d);
          applyLink = ensureString (str (job_apply_link job));
          employerWebsite = ensureString (str (employer_website job));
          employerEmail = ensureString (str (employer_email job));
          employerEmails =
            (case employerEmail of None \<Rightarrow> [] | Some e \<Rightarrow> [e])
            @ (case applyLink of
                 None \<Rightarrow> []
               | Some l \<Rightarrow> (if startsWith l ''mailto:'' then [drop (length ''mailto:'') l]
                            else []))
            @ (if description \<noteq> [] then match_all EMAIL_REGEX description else []);
          contactMap1 =
            fold add_email
              (filter (\<lambda>email. includes_str email ''@'') (map toLowerCase employerEmails)) [];
          phones = (if description \<noteq> []
                    then fold add_phone (match_all PHONE_REGEX description) []
                    else []);
          contactMap2 = fold put_phone phones contactMap1;
          contactMap3 =
            (case employerWebsite of
               None \<Rightarrow> contactMap2
             | Some w \<Rightarrow>
                 Map_set ''website''
                   \<lparr>label = ''Company website'',
                    value = (if startsWith w ''http'' then w else ''https://'' @ w)\<rparr>
                   contactMap2)
      in Map_values contactMap3)"

subsection \<open>The order of the output, as the specification words it\<close>

text \<open>A list without its repetitions, every element where it first occurs.\<close>

function first_occurrences :: "'a list \<Rightarrow> 'a list" where
  "first_occurrences [] = []"
| "first_occurrences (x # xs) = x # first_occurrences (filter (\<lambda>y. y \<noteq> x) xs)"
  by pat_completeness auto
termination
  by (relation "measure length") (auto simp: less_Suc_eq_le)

text \<open>The addresses in the order they are collected: the employer-email field, the
  address of a \<^verbatim>\<open>mailto:\<close> apply link, the matches in the description.\<close>

definition email_sources :: "JSearchJob \<Rightarrow> string list" where
  "email_sources job =
     (case ensureString (str (employer_email job)) of None \<Rightarrow> [] | Some e \<Rightarrow> [e])
     @ (case ensureString (str (job_apply_link job)) of
          None \<Rightarrow> []
        | Some l \<Rightarrow> (if startsWith l ''mailto:'' then [drop (length ''mailto:'') l]
                     else []))
     @ (case ensureString (str (job_description job)) of
          None \<Rightarrow> []
        | Some d \<Rightarrow> match_all EMAIL_REGEX d)"

text \<open>The candidate of an address: the label depends on the address alone.\<close>

definition email_contact :: "string \<Rightarrow> JobContact" where
  "email_contact e =
     \<lparr>label = (if includes_str e ''hr'' then ''HR email'' else ''Contact email''), value = e\<rparr>"

definition email_candidates :: "JSearchJob \<Rightarrow> JobContact list" where
  "email_candidates job =
     map email_contact
       (first_occurrences
          (filter (\<lambda>e. CHR ''@'' \<in> set e) (map toLowerCase (email_sources job))))"

definition phone_candidates :: "JSearchJob \<Rightarrow> JobContact list" where
  "phone_candidates job =
     map (\<lambda>p. \<lparr>label = ''Phone'', value = p\<rparr>)
       (first_occurrences
          (filter (\<lambda>p. 8 \<le> length p)
             (map (\<lambda>m. trim (collapse_spaces m))
                (case ensureString (str (job_description job)) of
                   None \<Rightarrow> []
                 | Some d \<Rightarrow> match_all PHONE_REGEX d))))"

definition website_candidate :: "JSearchJob \<Rightarrow> JobContact list" where
  "website_candidate job =
     (case ensureString (str (employer_website job)) of
        None \<Rightarrow> []
      | Some w \<Rightarrow>
          [\<lparr>label = ''Company website'',
            value = (if startsWith w ''http'' then w else ''https://'' @ w)\<rparr>])"

text \<open>The dedup key of a candidate: the lower-cased value of an email, the normalized
  value of a phone behind the prefix \<^verbatim>\<open>phone-\<close>, and \<^verbatim>\<open>website\<close> for the website.\<close>

definition dedup_key :: "JobContact \<Rightarrow> string" where
  "dedup_key c =
     (if label c = ''Company website'' then ''website''
      else if label c = ''Phone'' then ''phone-'' @ trim (collapse_spaces (value c))
      else toLowerCase (value c))"

definition is_email_candidate :: "JobContact \<Rightarrow> bool" where
  "is_email_candidate c = (label c = ''HR email'' \<or> label c = ''Contact email'')"

text \<open>The strings \<^verbatim>\<open>replace(/\s+/g, " ")\<close> leaves unchanged: white space occurs in them only
  as single spaces.\<close>

fun single_spaced :: "string \<Rightarrow> bool" where
  "single_spaced [] = True"
| "single_spaced [c] = (is_space c \<longrightarrow> c = CHR '' '')"
| "single_spaced (c # d # cs) =
     ((is_space c \<longrightarrow> c = CHR '' '' \<and> \<not> is_space d) \<and> single_spaced (d # cs))"

section \<open>Company insight lookup\<close>

record CompanyInsight =
  ci_name :: string
  ci_domain :: "string option"
  ci_description :: "string option"
  ci_logo :: "string option"
  ci_location :: "string option"
  ci_linkedin :: "string option"
  ci_twitter :: "string option"

text \<open>A suggestion of the directory service; \<open>cs_twitter\<close> and \<open>cs_linkedin\<close> hold the
  handle of the sub-object when it is there (\<open>None\<close>: the sub-object is absent or
  \<^verbatim>\<open>null\<close>).\<close>

record ClearbitSuggestion =
  cs_name :: string
  cs_domain :: "string option"
  cs_logo :: "string option"
  cs_description :: "string option"
  cs_location :: "string option"
  cs_twitter :: "string option"
  cs_linkedin :: "string option"

text \<open>
  What one call of \<^verbatim>\<open>fetch\<close> can do: reject (a network failure), or answer with a status
  code and a body. \<^verbatim>\<open>response.json()\<close> throws on a body that is not JSON; a body that
  parses is an array of suggestions or something else.
\<close>

datatype response_body = Malformed | NotArray | Suggestions "ClearbitSuggestion list"

datatype fetch_outcome = NetworkFailure | Response nat response_body

definition ok :: "nat \<Rightarrow> bool" where
  "ok status = (200 \<le> status \<and> status \<le> 299)"

definition handle_url :: "string \<Rightarrow> string option \<Rightarrow> string option" where
  "handle_url base h =
     (case h of None \<Rightarrow> None | Some x \<Rightarrow> (if x \<noteq> [] then Some (base @ x) else None))"

text \<open>The body of the \<^verbatim>\<open>try\<close> block: \<open>Inl\<close> is an exception thrown inside it.\<close>

definition fetchCompanyInsight_try :: "fetch_outcome \<Rightarrow> js_error + CompanyInsight option" where
  "fetchCompanyInsight_try outcome =
     (case outcome of
        NetworkFailure \<Rightarrow> Inl TypeError
      | Response status body \<Rightarrow>
          (if \<not> ok status then Inr None
           else (case body of
                   Malformed \<Rightarrow> Inl SyntaxError
                 | NotArray \<Rightarrow> Inr None
                 | Suggestions data \<Rightarrow>
                     (case data of
                        [] \<Rightarrow> Inr None
                      | bestMatch # _ \<Rightarrow>
                          Inr (Some
                            \<lparr>ci_name = cs_name bestMatch,
                             ci_domain = cs_domain bestMatch,
                             ci_description = cs_description bestMatch,
                             ci_logo = cs_logo bestMatch,
                             ci_location = cs_location bestMatch,
                             ci_linkedin =
                               handle_url ''https://www.linkedin.com/'' (cs_linkedin bestMatch),
                             ci_twitter =
                               handle_url ''https://twitter.com/'' (cs_twitter bestMatch)\<rparr>)))))"

text \<open>The function with its \<^verbatim>\<open>catch\<close>, which logs and returns \<^verbatim>\<open>undefined\<close>. \<open>http\<close> is
  the answer of the network to the request for a company name.\<close>

definition fetchCompanyInsight :: "(string \<Rightarrow> fetch_outcome) \<Rightarrow> string \<Rightarrow> js_error + CompanyInsight option" where
  "fetchCompanyInsight http name =
     (case fetchCompanyInsight_try (http name) of
        Inl error \<Rightarrow> Inr None
      | Inr insight \<Rightarrow> Inr insight)"

section \<open>Enrichment of the result list\<close>

record JobResult =
  result_id :: string
  title :: string
  company :: string
  city :: "string option"
  state :: "string option"
  country :: "string option"
  remote :: bool
  employmentType :: "string option"
  salary :: "string option"
  applyLink :: "string option"
  description :: "string option"
  highlights :: "string list"
  postedAt :: "string option"
  contacts :: "JobContact list"
  companyInsight :: "CompanyInsight option"

text \<open>
  What the outside world does for the listing at index \<open>i\<close> of the batch: the answer to
  its lookup request, the clock read when its record is built, and the identifier
  \<^verbatim>\<open>crypto.randomUUID()\<close> returns for it.
\<close>

record world =
  fetch :: "nat \<Rightarrow> string \<Rightarrow> fetch_outcome"
  clock :: "nat \<Rightarrow> int"
  randomUUID :: "nat \<Rightarrow> string"

text \<open>\<^verbatim>\<open>Boolean(v)\<close> of an optional boolean: \<^verbatim>\<open>undefined\<close> is falsy.\<close>

definition ToBoolean :: "bool option \<Rightarrow> bool" where
  "ToBoolean v = (case v of None \<Rightarrow> False | Some b \<Rightarrow> b)"

definition section_of :: "JSearchJob \<Rightarrow> (JobHighlights \<Rightarrow> string list option) \<Rightarrow> string list" where
  "section_of job sel =
     (case job_highlights job of
        None \<Rightarrow> []
      | Some h \<Rightarrow> (case sel h of None \<Rightarrow> [] | Some xs \<Rightarrow> xs))"

text \<open>
  The callback of \<^verbatim>\<open>trimmedJobs.map\<close> for the listing at index \<open>i\<close>. The first component
  lists the company names \<^verbatim>\<open>fetchCompanyInsight\<close> was called with; the second is the
  settlement of the promise: rejected with an error, or fulfilled with the record.
\<close>

definition enrichJob :: "runtime \<Rightarrow> world \<Rightarrow> string \<Rightarrow> nat \<Rightarrow> JSearchJob \<Rightarrow> string list \<times> (js_error + JobResult)" where
  "enrichJob rt w jobProfile i job =
     (let companyName = (case ensureString (str (employer_name job)) of
                           None \<Rightarrow> ''Unknown company'' | Some n \<Rightarrow> n);
          contacts' = extractContacts job;
          highlightSections =
            section_of job Qualifications @ section_of job Responsibilities
            @ section_of job Benefits;
          (calls, looked_up) =
            (if companyName \<noteq> ''Unknown company''
             then ([companyName], fetchCompanyInsight (fetch w i) companyName)
             else ([], Inr None))
      in (calls,
          case looked_up of
            Inl e \<Rightarrow> Inl e
          | Inr companyInsight' \<Rightarrow>
              (case formatSalary rt job of
                 Inl e \<Rightarrow> Inl e
               | Inr salary' \<Rightarrow>
                   Inr \<lparr>result_id = (case ensureString (str (job_id job)) of
                                       None \<Rightarrow> randomUUID w i | Some x \<Rightarrow> x),
                        title = (case ensureString (str (job_title job)) of
                                   None \<Rightarrow> jobProfile | Some x \<Rightarrow> x),
                        company = companyName,
                        city = ensureString (str (job_city job)),
                        state = ensureString (str (job_state job)),
                        country = ensureString (str (job_country job)),
                        remote = ToBoolean (job_is_remote job),
                        employmentType = ensureString (str (job_employment_type job)),
                        salary = salary',
                        applyLink = ensureString (str (job_apply_link job)),
                        description = ensureString (str (job_description job)),
                        highlights = take 6 highlightSections,
                        postedAt = formatPosted rt (clock w i) job,
                        contacts = contacts',
                        companyInsight = companyInsight'\<rparr>)))"

text \<open>
  \<^verbatim>\<open>Promise.all\<close>: the promises settle one after the other in the order \<open>order\<close> (indices
  into the list). A fulfilment stores the value at the promise's own index and fulfils
  the combined promise once every slot is filled; the first rejection rejects it. When
  the settlements run out before that, the combined promise stays pending: \<open>None\<close>.
\<close>

fun settle :: "(js_error + 'a) list \<Rightarrow> nat list \<Rightarrow> 'a option list \<Rightarrow> (js_error + 'a list) option" where
  "settle ps [] vals = None"
| "settle ps (i # order) vals =
     (if i < length ps
      then (case ps ! i of
              Inl e \<Rightarrow> Some (Inl e)
            | Inr v \<Rightarrow>
                (let vals' = vals[i := Some v]
                 in case those vals' of
                      Some vs \<Rightarrow> Some (Inr vs)
                    | None \<Rightarrow> settle ps order vals'))
      else settle ps order vals)"

definition Promise_all :: "(js_error + 'a) list \<Rightarrow> nat list \<Rightarrow> (js_error + 'a list) option" where
  "Promise_all ps order =
     (if ps = [] then Some (Inr []) else settle ps order (replicate (length ps) None))"

text \<open>
  The tail of \<^verbatim>\<open>POST\<close>, from the provider's answer on: the response is the list of
  enriched jobs, or the status 500 of the handler's \<^verbatim>\<open>catch\<close>. The first component lists
  the lookups that were started; \<open>None\<close> in the second means that no response is sent.
\<close>

datatype response = Jobs "JobResult list" | Status500

definition enrich :: "runtime \<Rightarrow> world \<Rightarrow> string \<Rightarrow> nat list \<Rightarrow> JSearchJob list \<Rightarrow> string list \<times> response option" where
  "enrich rt w jobProfile order jobs =
     (if length jobs = 0 then ([], Some (Jobs []))
      else (let trimmedJobs = take 12 jobs;
                tasks = map (\<lambda>(i, job). enrichJob rt w jobProfile i job)
                          (enumerate 0 trimmedJobs)
            in (concat (map fst tasks),
                case Promise_all (map snd tasks) order of
                  None \<Rightarrow> None
                | Some (Inl e) \<Rightarrow> Some Status500
                | Some (Inr enrichedJobs) \<Rightarrow> Some (Jobs enrichedJobs))))"

subsection \<open>Sample inputs\<close>

text \<open>A listing with no field at all, a runtime and a world to evaluate the functions on,
  and a batch of two listings: the first has a blank employer name, the second is a
  known company.\<close>

definition sparse_job :: JSearchJob where
  "sparse_job =
     \<lparr>job_id = None, job_title = None, employer_name = None, employer_website = None,
      employer_email = None, job_city = None, job_state = None, job_country = None,
      job_is_remote = None, job_employment_type = None, job_apply_link = None,
      job_description = None, job_highlights = None, job_salary = None,
      job_posted_at_timestamp = None, job_posted_at_datetime_utc = None,
      job_posted_at = None\<rparr>"

definition plain_runtime :: runtime where
  "plain_runtime =
     \<lparr>nf_format = (\<lambda>opts x. nf_currency opts), Date_parse = (\<lambda>s. None),
      toLocaleDateString = (\<lambda>t. ''date'')\<rparr>"

definition acme :: ClearbitSuggestion where
  "acme = \<lparr>cs_name = ''Acme Corp'', cs_domain = Some ''acme.com'', cs_logo = None,
            cs_description = None, cs_location = None, cs_twitter = Some ''acme'',
            cs_linkedin = Some ''company/acme''\<rparr>"

definition answering_world :: world where
  "answering_world =
     \<lparr>fetch = (\<lambda>i name. Response 200 (Suggestions [acme])), clock = (\<lambda>i. 0),
      randomUUID = (\<lambda>i. ''uuid-'' @ nat_toString i)\<rparr>"

definition two_jobs :: "JSearchJob list" where
  "two_jobs =
     [sparse_job\<lparr>employer_name := Some ''  '', job_is_remote := Some True\<rparr>,
      sparse_job\<lparr>employer_name := Some ''Acme Corp''\<rparr>]"

text \<open>A listing whose apply link is a \<^verbatim>\<open>mailto:\<close> link, and one with an employer email,
  a web apply link, a description with a phone number and a website.\<close>

definition mailto_job :: JSearchJob where
  "mailto_job = sparse_job\<lparr>employer_email := Some ''jobs@acme.com'',
                            job_apply_link := Some ''mailto:hr@acme.com''\<rparr>"

definition hr_job :: JSearchJob where
  "hr_job = sparse_job\<lparr>employer_email := Some '' HR@Acme.com '',
                        job_apply_link := Some ''https://acme.com/apply'',
                        job_description := Some ''Great team. Call +91 98765 43210 today.'',
                        employer_website := Some ''acme.com''\<rparr>"

section \<open>Properties of salary formatting\<close>

lemma coalesce_None_left: "coalesce None b = b"
  by (simp add: coalesce_def)

lemma coalesce_None_right: "coalesce a None = a"
  by (cases a) (simp_all add: coalesce_def)

text \<open>
  Claim C6. Salary formatting does not depend on the naming convention: a salary
  sub-record that carries its minimum, maximum and period under the primary field names
  and one that carries the same values under the alternate names, with the same currency,
  give the same result (the same text, the same absence, or the same error of the number
  formatter).
\<close>

theorem formatSalary_naming_invariant:
  "formatSalary rt (job\<lparr>job_salary := Some
       \<lparr>currency = c, salary_min = mn, salary_max = mx, salary_period = pd,
        min_salary = None, max_salary = None, period = None\<rparr>\<rparr>)
   = formatSalary rt (job\<lparr>job_salary := Some
       \<lparr>currency = c, salary_min = None, salary_max = None, salary_period = None,
        min_salary = mn, max_salary = mx, period = pd\<rparr>\<rparr>)"
  by (simp add: formatSalary_def coalesce_None_left coalesce_None_right)

text \<open>The cases of salary formatting that work as described: no truthy amount, two
  truthy amounts, a truthy minimum alone, and a truthy maximum with no minimum at all.\<close>

lemma formatSalary_neither:
  assumes "job_salary job = Some s"
    and "\<not> truthy (coalesce (salary_min s) (min_salary s))"
    and "\<not> truthy (coalesce (salary_max s) (max_salary s))"
  shows "formatSalary rt job = Inr None"
  using assms by (simp add: formatSalary_def)

lemma formatSalary_both:
  assumes "job_salary job = Some s"
    and "coalesce (salary_min s) (min_salary s) = Some a" and "a \<noteq> 0"
    and "coalesce (salary_max s) (max_salary s) = Some b" and "b \<noteq> 0"
    and "IsWellFormedCurrencyCode (case currency s of None \<Rightarrow> ''INR'' | Some c \<Rightarrow> c)"
  shows "formatSalary rt job =
           Inr (Some (nf_format rt \<lparr>nf_locale = ''en-IN'', nf_style = ''currency'',
                         nf_currency = (case currency s of None \<Rightarrow> ''INR'' | Some c \<Rightarrow> c),
                         nf_maximumFractionDigits = 0\<rparr> a @ '' - '' @
                      nf_format rt \<lparr>nf_locale = ''en-IN'', nf_style = ''currency'',
                         nf_currency = (case currency s of None \<Rightarrow> ''INR'' | Some c \<Rightarrow> c),
                         nf_maximumFractionDigits = 0\<rparr> b @
                      period_suffix (coalesce (salary_period s) (period s))))"
  using assms by (simp add: formatSalary_def truthy_def NumberFormat_def)

lemma formatSalary_min_only:
  assumes "job_salary job = Some s"
    and "coalesce (salary_min s) (min_salary s) = Some a" and "a \<noteq> 0"
    and "\<not> truthy (coalesce (salary_max s) (max_salary s))"
    and "IsWellFormedCurrencyCode (case currency s of None \<Rightarrow> ''INR'' | Some c \<Rightarrow> c)"
  shows "formatSalary rt job =
           Inr (Some (nf_format rt \<lparr>nf_locale = ''en-IN'', nf_style = ''currency'',
                         nf_currency = (case currency s of None \<Rightarrow> ''INR'' | Some c \<Rightarrow> c),
                         nf_maximumFractionDigits = 0\<rparr> a @
                      period_suffix (coalesce (salary_period s) (period s))))"
  using assms
  by (auto simp add: formatSalary_def truthy_def NumberFormat_def coalesce_def
      split: option.splits)

lemma formatSalary_max_only:
  assumes "job_salary job = Some s"
    and "coalesce (salary_min s) (min_salary s) = None"
    and "coalesce (salary_max s) (max_salary s) = Some b" and "b \<noteq> 0"
    and "IsWellFormedCurrencyCode (case currency s of None \<Rightarrow> ''INR'' | Some c \<Rightarrow> c)"
  shows "formatSalary rt job =
           Inr (Some (nf_format rt \<lparr>nf_locale = ''en-IN'', nf_style = ''currency'',
                         nf_currency = (case currency s of None \<Rightarrow> ''INR'' | Some c \<Rightarrow> c),
                         nf_maximumFractionDigits = 0\<rparr> b @
                      period_suffix (coalesce (salary_period s) (period s))))"
  using assms
  by (auto simp add: formatSalary_def truthy_def NumberFormat_def coalesce_def
      split: option.splits)

text \<open>
  Claim C7. With no truthy minimum and no truthy maximum the salary is absent; with both
  the text is the two formatted amounts joined by \<^verbatim>\<open> - \<close>; with only one, that single
  amount is formatted; a period, when there is one, follows behind \<^verbatim>\<open> / \<close>; the currency
  is \<^verbatim>\<open>INR\<close> when the record has none, and no fraction digits are printed (the lemmas
  above). The code does not format the single amount when the minimum is the number 0
  and the maximum is truthy: \<^verbatim>\<open>min ?? max\<close> keeps the 0, which is not nullish, and the
  result is absent. With the salary \<^verbatim>\<open>{salary_min: 0, salary_max: 50000}\<close> no salary is
  reported.
\<close>

theorem formatSalary_zero_min_drops_max:
  "formatSalary rt (job\<lparr>job_salary := Some
       \<lparr>currency = None, salary_min = Some 0, salary_max = Some 50000, salary_period = None,
        min_salary = None, max_salary = None, period = None\<rparr>\<rparr>) = Inr None"
  by (simp add: formatSalary_def coalesce_def truthy_def NumberFormat_def
      IsWellFormedCurrencyCode_def is_ascii_letter_def)

text \<open>A currency code that is not three letters makes the formatter's constructor
  throw, whatever the amounts.\<close>

lemma formatSalary_bad_currency:
  "formatSalary rt (job\<lparr>job_salary := Some
       \<lparr>currency = Some ''Rs'', salary_min = Some 10, salary_max = Some 50000,
        salary_period = None, min_salary = None, max_salary = None, period = None\<rparr>\<rparr>)
   = Inl RangeError"
  by (simp add: formatSalary_def coalesce_def truthy_def NumberFormat_def
      IsWellFormedCurrencyCode_def is_ascii_letter_def)

section \<open>Properties of the posting age\<close>

text \<open>The ages the specification names, for a date read from one of the two string
  fields and for a date made from the epoch-seconds field.\<close>

lemma formatPosted_of_string:
  assumes "coalesce (ensureString (str (job_posted_at_datetime_utc job)))
                    (ensureString (str (job_posted_at job))) = Some s"
    and "Date_parse rt s = Some t"
  shows "now - t = 30 * 60 * 1000 \<Longrightarrow>
           formatPosted rt now job = Some ''Posted less than an hour ago''"
    and "now - t = 2 * 24 * 60 * 60 * 1000 \<Longrightarrow>
           formatPosted rt now job = Some ''Posted 2 days ago''"
    and "now - t = 24 * 60 * 60 * 1000 \<Longrightarrow>
           formatPosted rt now job = Some ''Posted yesterday''"
    and "now - t = 10 * 24 * 60 * 60 * 1000 \<Longrightarrow>
           formatPosted rt now job = Some (toLocaleDateString rt t)"
  using assms by (simp_all add: formatPosted_def coalesce_def int_toString_def)

lemma formatPosted_of_timestamp:
  assumes "job_posted_at_datetime_utc job = None" and "job_posted_at job = None"
    and "job_posted_at_timestamp job = Some ts" and "\<bar>ts * 1000\<bar> \<le> 8640000000000000"
  shows "now - ts * 1000 = 30 * 60 * 1000 \<Longrightarrow>
           formatPosted rt now job = Some ''Posted less than an hour ago''"
    and "now - ts * 1000 = 2 * 24 * 60 * 60 * 1000 \<Longrightarrow>
           formatPosted rt now job = Some ''Posted 2 days ago''"
    and "now - ts * 1000 = 24 * 60 * 60 * 1000 \<Longrightarrow>
           formatPosted rt now job = Some ''Posted yesterday''"
    and "now - ts * 1000 = 10 * 24 * 60 * 60 * 1000 \<Longrightarrow>
           formatPosted rt now job = Some (toLocaleDateString rt (ts * 1000))"
  using assms
  by (simp_all add: formatPosted_def coalesce_def int_toString_def ensureString_def
      str_def num_def new_Date_def)

text \<open>With no epoch-seconds field, a listing whose string field does not parse has no
  posting age.\<close>

lemma formatPosted_absent:
  assumes "\<forall>s. coalesce (ensureString (str (job_posted_at_datetime_utc job)))
                    (ensureString (str (job_posted_at job))) = Some s
               \<longrightarrow> Date_parse rt s = None"
    and "job_posted_at_timestamp job = None"
  shows "formatPosted rt now job = None"
  using assms
  by (auto simp add: formatPosted_def coalesce_def ensureString_def num_def
      split: option.splits)

text \<open>
  Claim C8. A date 30 minutes old gives \<^verbatim>\<open>Posted less than an hour ago\<close>, one 2 days old
  \<^verbatim>\<open>Posted 2 days ago\<close>, one 1 day old \<^verbatim>\<open>Posted yesterday\<close>, one 10 days old the short
  calendar date (the lemmas above); and when no timestamp field gives a valid date, the
  posting age is absent. The string path checks the parsed date for \<^verbatim>\<open>NaN\<close>; the numeric
  path does not. An epoch-seconds value beyond the range of \<^verbatim>\<open>Date\<close>, such as
  10000000000000, gives an invalid date, and the posting age is then the text
  \<^verbatim>\<open>Invalid Date\<close>, not absent.
\<close>

theorem formatPosted_invalid_timestamp:
  "formatPosted rt now (job\<lparr>job_posted_at_datetime_utc := None, job_posted_at := None,
       job_posted_at_timestamp := Some 10000000000000\<rparr>) = Some ''Invalid Date''"
  by (simp add: formatPosted_def coalesce_def ensureString_def str_def num_def new_Date_def)

section \<open>Properties of contact extraction\<close>

subsection \<open>Strings\<close>

lemma includes_str_at: "includes_str s ''@'' \<longleftrightarrow> CHR ''@'' \<in> set s"
  by (induction s) auto

lemma lower_char_idem: "lower_char (lower_char c) = lower_char c"
  by (simp add: lower_char_def Let_def)

lemma toLowerCase_idem: "toLowerCase (toLowerCase s) = toLowerCase s"
  by (simp add: toLowerCase_def lower_char_idem)

lemma set_trim: "set (trim s) \<subseteq> set s"
proof -
  have "set (trim s) \<subseteq> set (dropWhile is_space s)"
    unfolding trim_def using set_dropWhileD by fastforce
  also have "\<dots> \<subseteq> set s"
    using set_dropWhileD by fastforce
  finally show ?thesis .
qed

lemma set_collapse_spaces: "set (collapse_spaces s) \<subseteq> insert CHR '' '' (set s)"
proof (induction s rule: collapse_spaces.induct)
  case 1
  then show ?case by simp
next
  case (2 c cs)
  have "set (dropWhile is_space cs) \<subseteq> set cs"
    using set_dropWhileD by fastforce
  with 2 show ?case by auto
qed

subsection \<open>Matches\<close>

lemma try_counts_Some:
  "try_counts cont s lo k = Some n \<Longrightarrow> \<exists>j m. j \<le> k \<and> cont (drop j s) = Some m \<and> n = j + m"
proof (induction k)
  case 0
  then show ?case by (auto split: if_splits option.splits)
next
  case (Suc k)
  show ?case
  proof (cases "cont (drop (Suc k) s)")
    case None
    with Suc.prems have "try_counts cont s lo k = Some n"
      by (simp split: if_splits)
    from Suc.IH[OF this] show ?thesis
      using le_Suc_eq by blast
  next
    case (Some m)
    with Suc.prems have "n = Suc k + m"
      by (simp split: if_splits)
    with Some show ?thesis by blast
  qed
qed

lemma match_here_chars:
  "match_here re s = Some n \<Longrightarrow>
     n \<le> length s \<and> (\<forall>c\<in>set (take n s). \<exists>it\<in>set re. item_class it c)"
proof (induction re arbitrary: s n)
  case Nil
  then show ?case by simp
next
  case (Cons it re)
  obtain cls lo hi where it: "it = Rep cls lo hi"
    by (cases it)
  define most where
    "most = (case hi of None \<Rightarrow> length (takeWhile cls s)
             | Some h \<Rightarrow> min h (length (takeWhile cls s)))"
  have most: "most \<le> length (takeWhile cls s)"
    by (simp add: most_def split: option.splits)
  from Cons.prems it have "try_counts (match_here re) s lo most = Some n"
    by (simp add: most_def Let_def)
  from try_counts_Some[OF this] obtain j m
    where j: "j \<le> most" and m: "match_here re (drop j s) = Some m" and n: "n = j + m"
    by blast
  from Cons.IH[OF m] have mlen: "m \<le> length (drop j s)"
    and mchars: "\<forall>c\<in>set (take m (drop j s)). \<exists>it\<in>set re. item_class it c"
    by simp_all
  have jrun: "j \<le> length (takeWhile cls s)"
    using j most by simp
  have "length (takeWhile cls s) \<le> length s"
    by (rule length_takeWhile_le)
  with jrun mlen n have len: "n \<le> length s"
    by simp
  have "take j s = take j (takeWhile cls s)"
  proof -
    have "take j (takeWhile cls s @ dropWhile cls s) = take j (takeWhile cls s)"
      using jrun by (simp del: takeWhile_dropWhile_id)
    then show ?thesis by (simp only: takeWhile_dropWhile_id)
  qed
  then have "set (take j s) \<subseteq> set (takeWhile cls s)"
    by (metis set_take_subset)
  then have jchars: "\<forall>c\<in>set (take j s). cls c"
    using set_takeWhileD by fastforce
  have "take n s = take j s @ take m (drop j s)"
    unfolding n by (rule take_add)
  with jchars mchars it have "\<forall>c\<in>set (take n s). \<exists>it'\<in>set (it # re). item_class it' c"
    by auto
  with len show ?case by blast
qed

lemma match_all_chars:
  "x \<in> set (match_all re s) \<Longrightarrow> \<forall>c\<in>set x. \<exists>it\<in>set re. item_class it c"
proof (induction re s rule: match_all.induct)
  case (1 re)
  then show ?case by (auto split: option.splits)
next
  case (2 re c cs)
  show ?case
  proof (cases "match_here re (c # cs)")
    case None
    with 2 show ?thesis by simp
  next
    case (Some n)
    with "2.prems" have "x = take n (c # cs) \<or> x \<in> set (match_all re (drop (n - 1) cs))"
      by simp
    then show ?thesis
    proof
      assume "x = take n (c # cs)"
      with match_here_chars[OF Some] show ?thesis by simp
    next
      assume "x \<in> set (match_all re (drop (n - 1) cs))"
      with "2.IH"(2)[OF Some] show ?thesis by simp
    qed
  qed
qed

lemma phone_match_no_at:
  assumes "x \<in> set (match_all PHONE_REGEX d)"
  shows "CHR ''@'' \<notin> set x"
proof
  assume "CHR ''@'' \<in> set x"
  with match_all_chars[OF assms] have "\<exists>it\<in>set PHONE_REGEX. item_class it CHR ''@''"
    by blast
  then show False
    by (simp add: PHONE_REGEX_def is_digit_def is_space_def)
qed

lemma phone_no_at:
  assumes "x \<in> set (match_all PHONE_REGEX d)"
  shows "CHR ''@'' \<notin> set (trim (collapse_spaces x))"
proof -
  have "set (trim (collapse_spaces x)) \<subseteq> insert CHR '' '' (set x)"
    using set_trim set_collapse_spaces by blast
  with phone_match_no_at[OF assms] show ?thesis by auto
qed

text \<open>The matcher on two descriptions: an address with too short a last label is no
  match, a phone number ends at its last digit, and seven digits are too few.\<close>

lemma match_all_email_example:
  "match_all EMAIL_REGEX ''contact hr@acme.com, or Jo.Bloggs@x.co.uk. Not a@b.c''
     = [''hr@acme.com'', ''Jo.Bloggs@x.co.uk'']"
  by code_simp

lemma match_all_phone_example:
  "match_all PHONE_REGEX ''call +91 98765 43210 or (022) 1234-5678. Not 1234567''
     = [''+91 98765 43210'', ''022) 1234-5678'']"
  by code_simp

lemma extractContacts_example:
  "extractContacts hr_job =
     [\<lparr>label = ''HR email'', value = ''hr@acme.com''\<rparr>,
      \<lparr>label = ''Phone'', value = ''+91 98765 43210''\<rparr>,
      \<lparr>label = ''Company website'', value = ''https://acme.com''\<rparr>]"
  by code_simp

subsection \<open>White space normalization\<close>

lemma single_spaced_tail: "single_spaced (c # cs) \<Longrightarrow> single_spaced cs"
  by (cases cs) auto

lemma single_spaced_dropWhile: "single_spaced s \<Longrightarrow> single_spaced (dropWhile P s)"
  by (induction s) (auto dest: single_spaced_tail)

lemma single_spaced_prefix: "single_spaced (xs @ ys) \<Longrightarrow> single_spaced xs"
proof (induction xs rule: single_spaced.induct)
  case 1
  then show ?case by simp
next
  case (2 c)
  then show ?case by (cases ys) auto
next
  case (3 c d cs)
  then show ?case by auto
qed

lemma rev_dropWhile_rev_prefix: "\<exists>ys. s = rev (dropWhile P (rev s)) @ ys"
proof -
  have "rev (takeWhile P (rev s) @ dropWhile P (rev s)) = s"
    by simp
  then have "rev (dropWhile P (rev s)) @ rev (takeWhile P (rev s)) = s"
    by (simp only: rev_append)
  then show ?thesis by metis
qed

lemma single_spaced_trim: "single_spaced s \<Longrightarrow> single_spaced (trim s)"
proof -
  assume "single_spaced s"
  then have d: "single_spaced (dropWhile is_space s)"
    by (rule single_spaced_dropWhile)
  obtain ys where "dropWhile is_space s = trim s @ ys"
    unfolding trim_def using rev_dropWhile_rev_prefix by blast
  with d show ?thesis
    using single_spaced_prefix by metis
qed

lemma single_spaced_collapse: "single_spaced (collapse_spaces s)"
proof (induction s rule: collapse_spaces.induct)
  case 1
  then show ?case by simp
next
  case (2 c cs)
  show ?case
  proof (cases "is_space c")
    case False
    with 2 show ?thesis
      by (cases "collapse_spaces cs") auto
  next
    case True
    show ?thesis
    proof (cases "dropWhile is_space cs")
      case Nil
      have "collapse_spaces (c # cs) = [CHR '' '']"
        by (simp add: True Nil del: dropWhile_eq_Nil_conv)
      then show ?thesis by simp
    next
      case (Cons d ds)
      then have "\<not> is_space d"
        using hd_dropWhile[of is_space cs] by simp
      with True Cons "2.IH"(1)[OF True] show ?thesis by simp
    qed
  qed
qed

lemma collapse_single_spaced: "single_spaced s \<Longrightarrow> collapse_spaces s = s"
proof (induction s rule: single_spaced.induct)
  case 1
  then show ?case by simp
next
  case (2 c)
  then show ?case by auto
next
  case (3 c d cs)
  then show ?case by auto
qed

lemma trim_idem: "trim (trim s) = trim s"
proof -
  define y where "y = dropWhile is_space s"
  define z where "z = dropWhile is_space (rev y)"
  have t: "trim s = rev z"
    by (simp add: trim_def y_def z_def)
  have "dropWhile is_space (rev z) = rev z"
  proof (cases "z = []")
    case True
    then show ?thesis by simp
  next
    case False
    obtain ys where ys: "y = rev z @ ys"
      unfolding z_def using rev_dropWhile_rev_prefix by blast
    with False have "hd (rev z) = hd y" by simp
    moreover have "y \<noteq> []" using ys False by simp
    then have "\<not> is_space (hd y)"
      unfolding y_def by (rule hd_dropWhile)
    ultimately show ?thesis
      by (simp add: dropWhile_eq_self_iff)
  qed
  then have "trim (rev z) = rev (dropWhile is_space z)"
    by (simp add: trim_def)
  also have "\<dots> = rev z"
    by (simp add: z_def)
  finally show ?thesis
    by (simp add: t)
qed

lemma normalize_idem:
  "trim (collapse_spaces (trim (collapse_spaces s))) = trim (collapse_spaces s)"
proof -
  have "single_spaced (trim (collapse_spaces s))"
    by (intro single_spaced_trim single_spaced_collapse)
  then have "collapse_spaces (trim (collapse_spaces s)) = trim (collapse_spaces s)"
    by (rule collapse_single_spaced)
  then show ?thesis
    by (simp add: trim_idem)
qed

subsection \<open>First occurrences\<close>

lemma set_first_occurrences: "set (first_occurrences xs) = set xs"
  by (induction xs rule: first_occurrences.induct) auto

lemma distinct_first_occurrences: "distinct (first_occurrences xs)"
  by (induction xs rule: first_occurrences.induct) (auto simp: set_first_occurrences)

subsection \<open>The Map and the Set\<close>

lemma Map_set_fresh: "k \<notin> fst ` set m \<Longrightarrow> Map_set k v m = m @ [(k, v)]"
  by (induction m) auto

lemma filter_fresh_step:
  "filter (\<lambda>e. e \<notin> insert x K) es = filter (\<lambda>y. y \<noteq> x) (filter (\<lambda>e. e \<notin> K) es)"
  by (induction es) auto

lemma fold_add_email:
  "fold add_email es m =
     m @ map (\<lambda>e. (e, email_contact e))
           (first_occurrences (filter (\<lambda>e. e \<notin> fst ` set m) es))"
proof (induction es arbitrary: m)
  case Nil
  then show ?case by simp
next
  case (Cons x es)
  show ?case
  proof (cases "x \<in> fst ` set m")
    case True
    then have "add_email x m = m"
      by (simp add: add_email_def Map_has_def)
    with True Cons.IH[of m] show ?thesis by simp
  next
    case False
    then have step: "add_email x m = m @ [(x, email_contact x)]"
      by (simp add: add_email_def Map_has_def Map_set_fresh email_contact_def)
    have "fst ` set (m @ [(x, email_contact x)]) = insert x (fst ` set m)"
      by auto
    with Cons.IH[of "m @ [(x, email_contact x)]"] step False show ?thesis
      by (simp add: filter_fresh_step conj_ac)
  qed
qed

lemma fold_add_phone:
  "fold add_phone ms acc =
     acc @ first_occurrences
             (filter (\<lambda>p. p \<notin> set acc)
                (filter (\<lambda>p. 8 \<le> length p) (map (\<lambda>m. trim (collapse_spaces m)) ms)))"
proof (induction ms arbitrary: acc)
  case Nil
  then show ?case by simp
next
  case (Cons x ms)
  let ?p = "trim (collapse_spaces x)"
  show ?case
  proof (cases "8 \<le> length ?p \<and> ?p \<notin> set acc")
    case False
    then have "add_phone x acc = acc"
      by (auto simp: add_phone_def Let_def Set_add_def)
    with False Cons.IH[of acc] show ?thesis by auto
  next
    case True
    then have step: "add_phone x acc = acc @ [?p]"
      by (simp add: add_phone_def Let_def Set_add_def)
    have "set (acc @ [?p]) = insert ?p (set acc)"
      by simp
    with Cons.IH[of "acc @ [?p]"] step True show ?thesis
      by (simp add: filter_fresh_step conj_ac)
  qed
qed

lemma fold_put_phone:
  assumes "distinct ps" and "\<forall>p\<in>set ps. ''phone-'' @ p \<notin> fst ` set m"
  shows "fold put_phone ps m = m @ map (\<lambda>p. (''phone-'' @ p, \<lparr>label = ''Phone'', value = p\<rparr>)) ps"
  using assms
proof (induction ps arbitrary: m)
  case Nil
  then show ?case by simp
next
  case (Cons p ps)
  let ?e = "(''phone-'' @ p, \<lparr>label = ''Phone'', value = p\<rparr>)"
  from Cons.prems have step: "put_phone p m = m @ [?e]"
    by (simp add: put_phone_def Let_def Map_has_def Map_set_fresh)
  have "\<forall>q\<in>set ps. ''phone-'' @ q \<notin> fst ` set (m @ [?e])"
    using Cons.prems by auto
  moreover have "distinct ps"
    using Cons.prems by simp
  ultimately have "fold put_phone ps (m @ [?e]) =
      (m @ [?e]) @ map (\<lambda>p. (''phone-'' @ p, \<lparr>label = ''Phone'', value = p\<rparr>)) ps"
    by (intro Cons.IH)
  with step show ?case by simp
qed

subsection \<open>The output of extractContacts\<close>

lemma ensureString_nonempty: "ensureString v = Some d \<Longrightarrow> d \<noteq> []"
  by (auto simp: ensureString_def split: unknown.splits if_splits)

lemma extractContacts_unfold:
  "extractContacts job =
     Map_values
       (let contactMap2 =
              fold put_phone
                (fold add_phone
                   (case ensureString (str (job_description job)) of
                      None \<Rightarrow> [] | Some d \<Rightarrow> match_all PHONE_REGEX d) [])
                (fold add_email
                   (filter (\<lambda>e. CHR ''@'' \<in> set e) (map toLowerCase (email_sources job))) [])
        in case ensureString (str (employer_website job)) of
             None \<Rightarrow> contactMap2
           | Some w \<Rightarrow>
               Map_set ''website''
                 \<lparr>label = ''Company website'',
                  value = (if startsWith w ''http'' then w else ''https://'' @ w)\<rparr>
                 contactMap2)"
proof (cases "ensureString (str (job_description job))")
  case None
  then show ?thesis
    by (simp add: extractContacts_def email_sources_def includes_str_at Let_def
        cong: option.case_cong)
next
  case (Some d)
  then have "d \<noteq> []" by (rule ensureString_nonempty)
  with Some show ?thesis
    by (simp add: extractContacts_def email_sources_def includes_str_at Let_def
        cong: option.case_cong)
qed

lemma extractContacts_parts:
  "extractContacts job = email_candidates job @ phone_candidates job @ website_candidate job"
proof -
  define emails where
    "emails = filter (\<lambda>e. CHR ''@'' \<in> set e) (map toLowerCase (email_sources job))"
  define matches where
    "matches = (case ensureString (str (job_description job)) of
                  None \<Rightarrow> [] | Some d \<Rightarrow> match_all PHONE_REGEX d)"
  define phones where
    "phones = first_occurrences
                (filter (\<lambda>p. 8 \<le> length p) (map (\<lambda>m. trim (collapse_spaces m)) matches))"
  define contactMap1 where
    "contactMap1 = map (\<lambda>e. (e, email_contact e)) (first_occurrences emails)"
  define contactMap2 where
    "contactMap2 =
       contactMap1 @ map (\<lambda>p. (''phone-'' @ p, \<lparr>label = ''Phone'', value = p\<rparr>)) phones"
  have m1: "fold add_email emails [] = contactMap1"
    by (simp add: fold_add_email contactMap1_def)
  have ph: "fold add_phone matches [] = phones"
    by (simp add: fold_add_phone phones_def)
  have keys1: "\<forall>k\<in>fst ` set contactMap1. CHR ''@'' \<in> set k"
    by (auto simp: contactMap1_def set_first_occurrences emails_def)
  have matches_no_at: "\<forall>x\<in>set matches. CHR ''@'' \<notin> set (trim (collapse_spaces x))"
    by (auto simp: matches_def dest: phone_no_at split: option.splits)
  have phones_no_at: "\<forall>p\<in>set phones. CHR ''@'' \<notin> set p"
    using matches_no_at by (auto simp: phones_def set_first_occurrences)
  have "\<forall>p\<in>set phones. ''phone-'' @ p \<notin> fst ` set contactMap1"
  proof
    fix p assume "p \<in> set phones"
    with phones_no_at have "CHR ''@'' \<notin> set (''phone-'' @ p)" by simp
    with keys1 show "''phone-'' @ p \<notin> fst ` set contactMap1" by blast
  qed
  moreover have "distinct phones"
    by (simp add: phones_def distinct_first_occurrences)
  ultimately have m2: "fold put_phone phones contactMap1 = contactMap2"
    by (simp add: fold_put_phone contactMap2_def)
  have fresh: "''website'' \<notin> fst ` set contactMap2"
  proof
    assume "''website'' \<in> fst ` set contactMap2"
    then consider "''website'' \<in> fst ` set contactMap1"
      | p where "''website'' = ''phone-'' @ p"
      by (auto simp: contactMap2_def)
    then show False
    proof cases
      case 1
      with keys1 have "CHR ''@'' \<in> set ''website''" by blast
      then show False by simp
    next
      case 2
      then show False by simp
    qed
  qed
  have values2: "map snd contactMap2 = email_candidates job @ phone_candidates job"
    by (simp add: contactMap2_def contactMap1_def email_candidates_def phone_candidates_def
        emails_def phones_def matches_def comp_def email_contact_def)
  show ?thesis
  proof (cases "ensureString (str (employer_website job))")
    case None
    then show ?thesis
      unfolding extractContacts_unfold
      by (simp add: m1 ph m2 values2 website_candidate_def Map_values_def
          flip: emails_def matches_def)
  next
    case (Some w)
    then show ?thesis
      unfolding extractContacts_unfold
      by (simp add: m1 ph m2 values2 website_candidate_def Map_values_def
          Map_set_fresh[OF fresh] flip: emails_def matches_def)
  qed
qed

lemma lower_char_at: "lower_char c = CHR ''@'' \<longleftrightarrow> c = CHR ''@''"
proof -
  have "char_of (n + 32) \<noteq> CHR ''@''" if "65 \<le> n" and "n \<le> 222" for n :: nat
  proof
    assume "char_of (n + 32) = CHR ''@''"
    then have "(of_char (char_of (n + 32) :: char) :: nat) = of_char CHR ''@''"
      by simp
    then have "(n + 32) mod 256 = 64"
      by simp
    moreover from that have "(n + 32) mod 256 = n + 32"
      by simp
    ultimately show False
      using that by simp
  qed
  then show ?thesis
    by (auto simp: lower_char_def Let_def)
qed

lemma at_in_toLowerCase: "CHR ''@'' \<in> set (toLowerCase s) \<longleftrightarrow> CHR ''@'' \<in> set s"
proof
  assume "CHR ''@'' \<in> set (toLowerCase s)"
  then obtain x where "x \<in> set s" and "lower_char x = CHR ''@''"
    by (auto simp: toLowerCase_def)
  then show "CHR ''@'' \<in> set s"
    by (simp add: lower_char_at)
next
  assume "CHR ''@'' \<in> set s"
  moreover have "lower_char CHR ''@'' = CHR ''@''"
    by (simp add: lower_char_at)
  ultimately show "CHR ''@'' \<in> set (toLowerCase s)"
    unfolding toLowerCase_def set_map by (metis imageI)
qed

lemma email_keys:
  "map dedup_key (email_candidates job) =
     first_occurrences (filter (\<lambda>e. CHR ''@'' \<in> set e) (map toLowerCase (email_sources job)))"
proof -
  let ?es = "first_occurrences (filter (\<lambda>e. CHR ''@'' \<in> set e) (map toLowerCase (email_sources job)))"
  have "map dedup_key (email_candidates job) = map toLowerCase ?es"
    by (simp add: email_candidates_def comp_def dedup_key_def email_contact_def)
  also have "\<dots> = map (\<lambda>e. e) ?es"
    by (rule map_cong) (auto simp: set_first_occurrences toLowerCase_idem)
  finally show ?thesis by simp
qed

lemma phone_keys:
  "map dedup_key (phone_candidates job) =
     map (\<lambda>p. ''phone-'' @ p)
       (first_occurrences
          (filter (\<lambda>p. 8 \<le> length p)
             (map (\<lambda>m. trim (collapse_spaces m))
                (case ensureString (str (job_description job)) of
                   None \<Rightarrow> []
                 | Some d \<Rightarrow> match_all PHONE_REGEX d))))"
  unfolding phone_candidates_def map_map
  by (rule map_cong) (auto simp: set_first_occurrences dedup_key_def normalize_idem)

lemma website_keys: "set (map dedup_key (website_candidate job)) \<subseteq> {''website''}"
  by (auto simp: website_candidate_def dedup_key_def split: option.splits)

lemma distinct_website_keys: "distinct (map dedup_key (website_candidate job))"
  by (auto simp: website_candidate_def split: option.splits)


text \<open>
  Claim C1. The output of the extractor has no two candidates with the same dedup key,
  where the key of an email candidate is its lower-cased value, the key of a phone
  candidate is its white-space-normalized value behind the prefix \<^verbatim>\<open>phone-\<close>, and the
  key of the website candidate is \<^verbatim>\<open>website\<close>.
\<close>

theorem extractContacts_keys_distinct: "distinct (map dedup_key (extractContacts job))"
proof -
  let ?E = "map dedup_key (email_candidates job)"
  let ?P = "map dedup_key (phone_candidates job)"
  let ?W = "map dedup_key (website_candidate job)"
  have dE: "distinct ?E"
    by (simp add: email_keys distinct_first_occurrences)
  have dP: "distinct ?P"
    by (simp add: phone_keys distinct_map distinct_first_occurrences inj_on_def)
  have atE: "\<forall>k\<in>set ?E. CHR ''@'' \<in> set k"
    by (auto simp: email_keys set_first_occurrences)
  have atP: "\<forall>k\<in>set ?P. CHR ''@'' \<notin> set k \<and> k \<noteq> ''website''"
    by (auto simp: phone_keys set_first_occurrences dest: phone_no_at split: option.splits)
  have atW: "\<forall>k\<in>set ?W. CHR ''@'' \<notin> set k"
    using website_keys[of job] by auto
  have "set ?E \<inter> set ?P = {}"
    using atE atP by blast
  moreover have "set ?E \<inter> set ?W = {}"
    using atE atW by blast
  moreover have "set ?P \<inter> set ?W = {}"
    using atP website_keys[of job] by blast
  ultimately have "distinct (?E @ ?P @ ?W)"
    using dE dP distinct_website_keys[of job] by auto
  then show ?thesis
    by (simp add: extractContacts_parts)
qed


text \<open>
  Claim C4. The output of the extractor is: the email candidates in the order the
  addresses are collected (employer-email field, \<^verbatim>\<open>mailto:\<close> apply link, matches in the
  description), each lower-cased address once, where it first occurs and with the label
  it gets there; then the phone candidates in the order of their first occurrence; then
  the website candidate when the listing has a website.
\<close>

theorem extractContacts_order:
  "extractContacts job = email_candidates job @ phone_candidates job @ website_candidate job"
  by (rule extractContacts_parts)


lemma filter_emails:
  "filter is_email_candidate (extractContacts job) = email_candidates job"
proof -
  have "filter is_email_candidate (email_candidates job) = email_candidates job"
    by (auto simp: email_candidates_def is_email_candidate_def filter_map comp_def
        email_contact_def)
  moreover have "filter is_email_candidate (phone_candidates job) = []"
    by (auto simp: phone_candidates_def is_email_candidate_def filter_map comp_def)
  moreover have "filter is_email_candidate (website_candidate job) = []"
    by (auto simp: website_candidate_def is_email_candidate_def split: option.splits)
  ultimately show ?thesis
    by (simp add: extractContacts_parts)
qed


text \<open>
  Claim C5, as stated, is that a listing with an employer-email field and no email match
  in its description yields exactly one email candidate. It fails for a listing whose
  apply link is a \<^verbatim>\<open>mailto:\<close> link with another address: the extractor collects that
  address too, so there are two email candidates.
\<close>

theorem mailto_adds_a_second_email:
  "employer_email mailto_job = Some ''jobs@acme.com''
   \<and> (case ensureString (str (job_description mailto_job)) of
         None \<Rightarrow> [] | Some d \<Rightarrow> match_all EMAIL_REGEX d) = []
   \<and> filter is_email_candidate (extractContacts mailto_job) =
       [\<lparr>label = ''Contact email'', value = ''jobs@acme.com''\<rparr>,
        \<lparr>label = ''HR email'', value = ''hr@acme.com''\<rparr>]"
  by code_simp


text \<open>
  Claim C5, amended. When the employer-email field is not blank and its trimmed value
  \<open>e\<close> contains \<^verbatim>\<open>@\<close>, the description has no email match, and the apply link adds no
  further address (it is absent, or not a \<^verbatim>\<open>mailto:\<close> link, or its address has no \<^verbatim>\<open>@\<close>
  or equals \<open>e\<close> up to case), the output has exactly one email candidate: its value is
  \<open>e\<close> in lower case, its label \<^verbatim>\<open>HR email\<close> when that value contains \<^verbatim>\<open>hr\<close> and
  \<^verbatim>\<open>Contact email\<close> otherwise.
\<close>

theorem single_employer_email:
  assumes "ensureString (str (employer_email job)) = Some e"
    and "CHR ''@'' \<in> set e"
    and "(case ensureString (str (job_description job)) of
            None \<Rightarrow> [] | Some d \<Rightarrow> match_all EMAIL_REGEX d) = []"
    and "case ensureString (str (job_apply_link job)) of
           None \<Rightarrow> True
         | Some l \<Rightarrow> \<not> startsWith l ''mailto:''
                     \<or> CHR ''@'' \<notin> set (drop (length ''mailto:'') l)
                     \<or> toLowerCase (drop (length ''mailto:'') l) = toLowerCase e"
  shows "filter is_email_candidate (extractContacts job) =
           [\<lparr>label = (if includes_str (toLowerCase e) ''hr'' then ''HR email''
                      else ''Contact email''),
             value = toLowerCase e\<rparr>]"
proof -
  let ?link = "case ensureString (str (job_apply_link job)) of
                 None \<Rightarrow> []
               | Some l \<Rightarrow> (if startsWith l ''mailto:'' then [drop (length ''mailto:'') l]
                            else [])"
  have src: "email_sources job = e # ?link"
    using assms(1,3) by (simp add: email_sources_def)
  have "filter (\<lambda>y. y \<noteq> toLowerCase e)
          (filter (\<lambda>a. CHR ''@'' \<in> set a) (map toLowerCase ?link)) = []"
    using assms(4) by (auto simp: at_in_toLowerCase split: option.splits)
  then have "first_occurrences
          (filter (\<lambda>a. CHR ''@'' \<in> set a) (map toLowerCase (email_sources job)))
        = [toLowerCase e]"
    using assms(2) by (simp add: src at_in_toLowerCase)
  then show ?thesis
    by (simp add: filter_emails email_candidates_def email_contact_def)
qed

theorem single_employer_email_witness:
  "filter is_email_candidate (extractContacts hr_job) =
     [\<lparr>label = ''HR email'', value = ''hr@acme.com''\<rparr>]"
proof -
  have h1: "ensureString (str (employer_email hr_job)) = Some ''HR@Acme.com''"
    by code_simp
  have h2: "CHR ''@'' \<in> set ''HR@Acme.com''"
    by simp
  have h3: "(case ensureString (str (job_description hr_job)) of
               None \<Rightarrow> [] | Some d \<Rightarrow> match_all EMAIL_REGEX d) = []"
    by code_simp
  have h4: "case ensureString (str (job_apply_link hr_job)) of
           None \<Rightarrow> True
         | Some l \<Rightarrow> \<not> startsWith l ''mailto:''
                     \<or> CHR ''@'' \<notin> set (drop (length ''mailto:'') l)
                     \<or> toLowerCase (drop (length ''mailto:'') l) = toLowerCase ''HR@Acme.com''"
    by code_simp
  have rhs: "\<lparr>label = (if includes_str (toLowerCase ''HR@Acme.com'') ''hr'' then ''HR email''
                      else ''Contact email''),
             value = toLowerCase ''HR@Acme.com''\<rparr>
           = \<lparr>label = ''HR email'', value = ''hr@acme.com''\<rparr>"
    by code_simp
  from single_employer_email[OF h1 h2 h3 h4] show ?thesis
    by (simp only: rhs)
qed

section \<open>Properties of the company insight lookup\<close>

text \<open>
  Claim C3. The lookup never throws: whatever the network answers, it returns a company
  insight or nothing. A network failure, a status outside 200-299, a body that is not
  JSON, a body that is not an array and an empty array all give nothing; otherwise the
  first suggestion is copied field by field, and a non-empty Twitter or LinkedIn handle
  is prefixed with the base URL of the site.
\<close>

theorem fetchCompanyInsight_never_throws:
  "fetchCompanyInsight http name =
     Inr (case http name of
            NetworkFailure \<Rightarrow> None
          | Response status body \<Rightarrow>
              (if 200 \<le> status \<and> status \<le> 299
               then (case body of
                       Malformed \<Rightarrow> None
                     | NotArray \<Rightarrow> None
                     | Suggestions [] \<Rightarrow> None
                     | Suggestions (bestMatch # others) \<Rightarrow>
                         Some \<lparr>ci_name = cs_name bestMatch,
                               ci_domain = cs_domain bestMatch,
                               ci_description = cs_description bestMatch,
                               ci_logo = cs_logo bestMatch,
                               ci_location = cs_location bestMatch,
                               ci_linkedin =
                                 (case cs_linkedin bestMatch of
                                    None \<Rightarrow> None
                                  | Some h \<Rightarrow> (if h = [] then None
                                               else Some (''https://www.linkedin.com/'' @ h))),
                               ci_twitter =
                                 (case cs_twitter bestMatch of
                                    None \<Rightarrow> None
                                  | Some h \<Rightarrow> (if h = [] then None
                                               else Some (''https://twitter.com/'' @ h)))\<rparr>)
               else None))"
  by (simp add: fetchCompanyInsight_def fetchCompanyInsight_try_def ok_def handle_url_def
      split: fetch_outcome.splits response_body.splits list.splits option.splits)


section \<open>Properties of the enrichment\<close>

subsection \<open>Promise.all\<close>

lemma those_eq_Some: "those xs = Some ys \<longleftrightarrow> xs = map Some ys"
  by (induction xs arbitrary: ys) (auto split: option.splits)

lemma those_filled:
  assumes "\<forall>j<length xs. xs ! j \<noteq> None"
  shows "\<exists>ys. those xs = Some ys"
proof -
  have "xs = map Some (map the xs)"
    using assms by (intro nth_equalityI) auto
  then show ?thesis
    using those_eq_Some by blast
qed

lemma settle_rejected:
  "settle ps order vals = Some (Inl e) \<Longrightarrow> \<exists>i<length ps. ps ! i = Inl e"
proof (induction order arbitrary: vals)
  case Nil
  then show ?case by simp
next
  case (Cons i order)
  then show ?case
    by (auto simp: Let_def split: if_splits sum.splits option.splits)
qed

lemma settle_fulfilled:
  assumes "settle ps order vals = Some (Inr vs)"
    and "length vals = length ps"
    and "\<forall>j<length ps. \<forall>v. vals ! j = Some v \<longrightarrow> ps ! j = Inr v"
  shows "ps = map Inr vs"
  using assms
proof (induction order arbitrary: vals)
  case Nil
  then show ?case by simp
next
  case (Cons i order)
  show ?case
  proof (cases "i < length ps")
    case False
    with Cons show ?thesis by simp
  next
    case True
    from Cons.prems(1) True obtain v where v: "ps ! i = Inr v"
      by (cases "ps ! i") auto
    let ?vals' = "vals[i := Some v]"
    have len: "length ?vals' = length ps"
      using Cons.prems(2) by simp
    have inv: "\<forall>j<length ps. \<forall>u. ?vals' ! j = Some u \<longrightarrow> ps ! j = Inr u"
      using Cons.prems(2,3) v True by (auto simp: nth_list_update)
    show ?thesis
    proof (cases "those ?vals'")
      case None
      with Cons.prems(1) True v have "settle ps order ?vals' = Some (Inr vs)"
        by simp
      from Cons.IH[OF this len inv] show ?thesis .
    next
      case (Some us)
      with Cons.prems(1) True v have "us = vs" by simp
      with Some have eq: "?vals' = map Some vs"
        by (simp add: those_eq_Some)
      have "length vs = length ps"
        using len eq by (metis length_map)
      moreover have "\<And>j. j < length ps \<Longrightarrow> ps ! j = Inr (vs ! j)"
      proof -
        fix j assume j: "j < length ps"
        then have "?vals' ! j = Some (vs ! j)"
          using eq \<open>length vs = length ps\<close> by simp
        with inv j show "ps ! j = Inr (vs ! j)" by blast
      qed
      ultimately show ?thesis
        by (intro nth_equalityI) auto
    qed
  qed
qed

lemma settle_settles:
  assumes "distinct order" and "order \<noteq> []"
    and "length vals = length ps"
    and "set order \<subseteq> {..<length ps}"
    and "\<forall>j<length ps. (vals ! j = None) = (j \<in> set order)"
  shows "settle ps order vals \<noteq> None"
  using assms
proof (induction order arbitrary: vals)
  case Nil
  then show ?case by simp
next
  case (Cons i order)
  from Cons.prems(4) have i: "i < length ps" by simp
  show ?case
  proof (cases "ps ! i")
    case (Inl e)
    with i show ?thesis by simp
  next
    case (Inr v)
    let ?vals' = "vals[i := Some v]"
    have slots: "\<forall>j<length ps. (?vals' ! j = None) = (j \<in> set order)"
      using Cons.prems(1,3,5) i by (auto simp: nth_list_update)
    show ?thesis
    proof (cases "those ?vals'")
      case (Some us)
      with i Inr show ?thesis by simp
    next
      case None
      have "order \<noteq> []"
      proof
        assume "order = []"
        with slots Cons.prems(3) have "\<forall>j<length ?vals'. ?vals' ! j \<noteq> None"
          by simp
        from those_filled[OF this] None show False by simp
      qed
      moreover have "distinct order" "length ?vals' = length ps"
        "set order \<subseteq> {..<length ps}"
        using Cons.prems by auto
      ultimately have "settle ps order ?vals' \<noteq> None"
        using slots by (intro Cons.IH)
      with i Inr None show ?thesis by simp
    qed
  qed
qed

lemma Promise_all_fulfilled:
  assumes "Promise_all ps order = Some (Inr vs)"
  shows "ps = map Inr vs"
proof (cases "ps = []")
  case True
  with assms show ?thesis by (simp add: Promise_all_def)
next
  case False
  with assms have "settle ps order (replicate (length ps) None) = Some (Inr vs)"
    by (simp add: Promise_all_def)
  then show ?thesis
    by (rule settle_fulfilled) simp_all
qed

lemma Promise_all_rejected:
  assumes "Promise_all ps order = Some (Inl e)"
  shows "\<exists>i<length ps. ps ! i = Inl e"
  using assms by (auto simp: Promise_all_def dest: settle_rejected split: if_splits)

lemma Promise_all_settles:
  assumes "distinct order" and "set order = {..<length ps}"
  shows "Promise_all ps order \<noteq> None"
proof (cases "ps = []")
  case True
  then show ?thesis by (simp add: Promise_all_def)
next
  case False
  then have "0 < length ps" by simp
  then have "0 \<in> set order" by (simp add: assms(2))
  then have "order \<noteq> []" by auto
  then have "settle ps order (replicate (length ps) None) \<noteq> None"
    using assms by (intro settle_settles) auto
  with False show ?thesis by (simp add: Promise_all_def)
qed


subsection \<open>The batch\<close>

lemma tasks_nth:
  assumes "i < min (length jobs) 12"
  shows "map (\<lambda>(i, job). enrichJob rt w p i job) (enumerate 0 (take 12 jobs)) ! i
           = enrichJob rt w p i (jobs ! i)"
  using assms by (simp add: nth_enumerate_eq)

lemma enrich_Jobs:
  assumes "snd (enrich rt w p order jobs) = Some (Jobs out)"
  shows "length out = min (length jobs) 12"
    and "\<forall>i<length out. snd (enrichJob rt w p i (jobs ! i)) = Inr (out ! i)"
proof -
  let ?tasks = "map (\<lambda>(i, job). enrichJob rt w p i job) (enumerate 0 (take 12 jobs))"
  have both: "length out = min (length jobs) 12
      \<and> (\<forall>i<length out. snd (enrichJob rt w p i (jobs ! i)) = Inr (out ! i))"
  proof (cases "jobs = []")
    case True
    with assms show ?thesis by (simp add: enrich_def)
  next
    case False
    with assms have "Promise_all (map snd ?tasks) order = Some (Inr out)"
      by (auto simp: enrich_def Let_def split: option.splits sum.splits)
    then have eq: "map snd ?tasks = map Inr out"
      by (rule Promise_all_fulfilled)
    then have "length (map snd ?tasks) = length out"
      by (metis length_map)
    then have len: "length out = min (length jobs) 12"
      by simp
    have "snd (enrichJob rt w p i (jobs ! i)) = Inr (out ! i)" if "i < length out" for i
    proof -
      from that len have i: "i < min (length jobs) 12" by simp
      have "snd (enrichJob rt w p i (jobs ! i)) = map snd ?tasks ! i"
        using tasks_nth[OF i, of rt w p] i by simp
      also have "\<dots> = map Inr out ! i"
        by (simp only: eq)
      also have "\<dots> = Inr (out ! i)"
        using that by simp
      finally show ?thesis .
    qed
    with len show ?thesis by blast
  qed
  from both show "length out = min (length jobs) 12" ..
  from both show "\<forall>i<length out. snd (enrichJob rt w p i (jobs ! i)) = Inr (out ! i)" ..
qed

lemma enrich_responds:
  assumes "distinct order" and "set order = {..<min (length jobs) 12}"
  shows "snd (enrich rt w p order jobs) \<noteq> None"
proof (cases "jobs = []")
  case True
  then show ?thesis by (simp add: enrich_def)
next
  case False
  let ?tasks = "map (\<lambda>(i, job). enrichJob rt w p i job) (enumerate 0 (take 12 jobs))"
  have "set order = {..<length (map snd ?tasks)}"
    using assms(2) by simp
  with assms(1) have "Promise_all (map snd ?tasks) order \<noteq> None"
    by (rule Promise_all_settles)
  with False show ?thesis
    by (auto simp: enrich_def Let_def split: option.splits sum.splits)
qed

lemma enrich_Status500:
  assumes "snd (enrich rt w p order jobs) = Some Status500"
  shows "\<exists>i<min (length jobs) 12. \<exists>e. snd (enrichJob rt w p i (jobs ! i)) = Inl e"
proof -
  let ?tasks = "map (\<lambda>(i, job). enrichJob rt w p i job) (enumerate 0 (take 12 jobs))"
  from assms have ne: "jobs \<noteq> []"
    by (auto simp: enrich_def)
  with assms obtain e where "Promise_all (map snd ?tasks) order = Some (Inl e)"
    by (auto simp: enrich_def Let_def split: option.splits sum.splits)
  from Promise_all_rejected[OF this] obtain i
    where i: "i < min (length jobs) 12" and "map snd ?tasks ! i = Inl e"
    by auto
  then have "snd (enrichJob rt w p i (jobs ! i)) = Inl e"
    using tasks_nth[OF i, of rt w p] by simp
  with i show ?thesis by blast
qed

lemma enrich_fulfils:
  assumes "distinct order" and "set order = {..<min (length jobs) 12}"
    and "\<forall>i<min (length jobs) 12. \<exists>r. snd (enrichJob rt w p i (jobs ! i)) = Inr r"
  shows "\<exists>out. snd (enrich rt w p order jobs) = Some (Jobs out)"
proof -
  from enrich_responds[OF assms(1,2)] obtain resp
    where resp: "snd (enrich rt w p order jobs) = Some resp"
    by blast
  show ?thesis
  proof (cases resp)
    case (Jobs out)
    with resp show ?thesis by blast
  next
    case Status500
    with resp have "snd (enrich rt w p order jobs) = Some Status500" by simp
    from enrich_Status500[OF this] assms(3) show ?thesis by force
  qed
qed

lemma enrichJob_calls:
  "fst (enrichJob rt w p i job) =
     (case ensureString (str (employer_name job)) of
        None \<Rightarrow> []
      | Some n \<Rightarrow> (if n \<noteq> ''Unknown company'' then [n] else []))"
  by (simp add: enrichJob_def Let_def split: option.splits)

lemma enrichJob_fields:
  assumes "snd (enrichJob rt w p i job) = Inr r"
  shows "remote r = ToBoolean (job_is_remote job)"
    and "company r = (case ensureString (str (employer_name job)) of
                        None \<Rightarrow> ''Unknown company'' | Some n \<Rightarrow> n)"
    and "ensureString (str (employer_name job)) = None \<Longrightarrow> companyInsight r = None"
  using assms
  by (auto simp add: enrichJob_def Let_def split: option.splits sum.splits if_splits)

lemma enrichJob_no_salary:
  assumes "job_salary job = None"
  shows "\<exists>r. snd (enrichJob rt w p i job) = Inr r"
  using assms
  by (auto simp add: enrichJob_def Let_def formatSalary_def fetchCompanyInsight_def
      split: option.splits sum.splits)

lemma ensureString_None_iff:
  "ensureString (str v) = None \<longleftrightarrow> (case v of None \<Rightarrow> True | Some s \<Rightarrow> trim s = [])"
  by (simp add: ensureString_def str_def split: option.splits)

lemma enrich_calls:
  "fst (enrich rt w p order jobs) =
     (if jobs = [] then []
      else concat (map (\<lambda>(i, job). fst (enrichJob rt w p i job)) (enumerate 0 (take 12 jobs))))"
  by (simp add: enrich_def Let_def comp_def case_prod_unfold)

lemma two_jobs_no_salary: "i < 2 \<Longrightarrow> job_salary (two_jobs ! i) = None"
  by (auto simp: two_jobs_def sparse_job_def dest!: less_2_cases)

lemma enrichJob_insight:
  assumes "snd (enrichJob rt w p i job) = Inr r"
    and "ensureString (str (employer_name job)) = Some n" and "n \<noteq> ''Unknown company''"
  shows "fetchCompanyInsight (fetch w i) n = Inr (companyInsight r)"
  using assms
  by (auto simp add: enrichJob_def Let_def split: option.splits sum.splits if_splits)

lemma sentinel_not_called: "''Unknown company'' \<notin> set (fst (enrichJob rt w p i job))"
  by (simp add: enrichJob_calls split: option.splits)

lemma sentinel_not_in_calls: "''Unknown company'' \<notin> set (fst (enrich rt w p order jobs))"
  by (auto simp add: enrich_calls sentinel_not_called)


text \<open>
  Claim C2. Whatever the lookups answer and in whatever order the promises of the
  listings settle, a response with jobs holds exactly \<open>min (length jobs) 12\<close> of them (so
  never more than 12, never more than the input), and the job at index \<open>i\<close> is the
  enrichment of the input listing at index \<open>i\<close>. A response is sent whenever every
  promise settles, and it holds the jobs when no enrichment throws. An empty result list
  gives the empty list of jobs and starts no lookup.
\<close>

theorem enrich_in_input_order:
  "(\<forall>out. snd (enrich rt w p order jobs) = Some (Jobs out) \<longrightarrow>
       length out = min (length jobs) 12 \<and>
       (\<forall>i<length out. snd (enrichJob rt w p i (jobs ! i)) = Inr (out ! i)))
   \<and> (distinct order \<and> set order = {..<min (length jobs) 12} \<longrightarrow>
         snd (enrich rt w p order jobs) \<noteq> None)
   \<and> (distinct order \<and> set order = {..<min (length jobs) 12} \<and>
       (\<forall>i<min (length jobs) 12. \<exists>r. snd (enrichJob rt w p i (jobs ! i)) = Inr r) \<longrightarrow>
         (\<exists>out. snd (enrich rt w p order jobs) = Some (Jobs out)))
   \<and> enrich rt w p order [] = ([], Some (Jobs []))"
proof -
  have "\<forall>out. snd (enrich rt w p order jobs) = Some (Jobs out) \<longrightarrow>
       length out = min (length jobs) 12 \<and>
       (\<forall>i<length out. snd (enrichJob rt w p i (jobs ! i)) = Inr (out ! i))"
    using enrich_Jobs by blast
  moreover have "distinct order \<and> set order = {..<min (length jobs) 12} \<longrightarrow>
         snd (enrich rt w p order jobs) \<noteq> None"
    using enrich_responds by blast
  moreover have "distinct order \<and> set order = {..<min (length jobs) 12} \<and>
       (\<forall>i<min (length jobs) 12. \<exists>r. snd (enrichJob rt w p i (jobs ! i)) = Inr r) \<longrightarrow>
         (\<exists>out. snd (enrich rt w p order jobs) = Some (Jobs out))"
    using enrich_fulfils by blast
  moreover have "enrich rt w p order [] = ([], Some (Jobs []))"
    by (simp add: enrich_def)
  ultimately show ?thesis by blast
qed

theorem enrich_in_input_order_witness:
  "\<exists>out. snd (enrich plain_runtime answering_world ''Backend Developer'' [1, 0] two_jobs)
            = Some (Jobs out)
         \<and> length out = 2
         \<and> company (out ! 0) = ''Unknown company'' \<and> company (out ! 1) = ''Acme Corp''"
proof -
  note inst = enrich_in_input_order
    [of plain_runtime answering_world "''Backend Developer''" "[1, 0]" two_jobs]
  have len: "min (length two_jobs) 12 = 2"
    by (simp add: two_jobs_def)
  have perm: "distinct [1, 0 :: nat] \<and> set [1, 0 :: nat] = {..<min (length two_jobs) 12}"
    unfolding len by auto
  have ok: "\<forall>i<min (length two_jobs) 12.
              \<exists>r. snd (enrichJob plain_runtime answering_world ''Backend Developer'' i (two_jobs ! i)) = Inr r"
    unfolding len by (simp add: enrichJob_no_salary two_jobs_no_salary)
  from inst perm ok obtain out
    where out: "snd (enrich plain_runtime answering_world ''Backend Developer'' [1, 0] two_jobs)
                  = Some (Jobs out)"
    by blast
  with inst have l: "length out = 2"
    and nth: "\<forall>i<length out.
        snd (enrichJob plain_runtime answering_world ''Backend Developer'' i (two_jobs ! i))
          = Inr (out ! i)"
    unfolding len by blast+
  from nth l have "snd (enrichJob plain_runtime answering_world ''Backend Developer'' 0 (two_jobs ! 0)) = Inr (out ! 0)"
    and "snd (enrichJob plain_runtime answering_world ''Backend Developer'' 1 (two_jobs ! 1)) = Inr (out ! 1)"
    by simp_all
  then have "company (out ! 0) = ''Unknown company''" and "company (out ! 1) = ''Acme Corp''"
    by (simp_all add: enrichJob_fields(2) two_jobs_def sparse_job_def ensureString_def
        str_def trim_def is_space_def)
  with out l show ?thesis by blast
qed

text \<open>
  Claim C9. The lookup is never started with the name \<^verbatim>\<open>Unknown company\<close>. For a listing
  whose employer name is absent or blank no lookup is started at all, and in the response
  its company is \<^verbatim>\<open>Unknown company\<close> and it has no company insight, whatever the lookups
  of the world answer.
\<close>

theorem lookup_skipped_without_employer:
  "''Unknown company'' \<notin> set (fst (enrich rt w p order jobs))
   \<and> (\<forall>i<length jobs.
         (case employer_name (jobs ! i) of None \<Rightarrow> True | Some s \<Rightarrow> trim s = []) \<longrightarrow>
           fst (enrichJob rt w p i (jobs ! i)) = []
           \<and> (\<forall>out. snd (enrich rt w p order jobs) = Some (Jobs out) \<and> i < length out \<longrightarrow>
                 company (out ! i) = ''Unknown company'' \<and> companyInsight (out ! i) = None))"
proof -
  have "fst (enrichJob rt w p i (jobs ! i)) = []
        \<and> (\<forall>out. snd (enrich rt w p order jobs) = Some (Jobs out) \<and> i < length out \<longrightarrow>
              company (out ! i) = ''Unknown company'' \<and> companyInsight (out ! i) = None)"
    if blank: "case employer_name (jobs ! i) of None \<Rightarrow> True | Some s \<Rightarrow> trim s = []"
    for i
  proof -
    from blank have none: "ensureString (str (employer_name (jobs ! i))) = None"
      by (simp add: ensureString_None_iff)
    then have "fst (enrichJob rt w p i (jobs ! i)) = []"
      by (simp add: enrichJob_calls)
    moreover have "company (out ! i) = ''Unknown company'' \<and> companyInsight (out ! i) = None"
      if "snd (enrich rt w p order jobs) = Some (Jobs out)" and "i < length out" for out
    proof -
      from enrich_Jobs(2)[OF that(1)] that(2)
      have "snd (enrichJob rt w p i (jobs ! i)) = Inr (out ! i)" by blast
      from enrichJob_fields(2,3)[OF this] none show ?thesis by simp
    qed
    ultimately show ?thesis by blast
  qed
  with sentinel_not_in_calls show ?thesis by blast
qed

theorem lookup_skipped_without_employer_witness:
  "fst (enrich plain_runtime answering_world ''Backend Developer'' [1, 0] two_jobs) = [''Acme Corp'']
   \<and> ''Unknown company'' \<notin> set (fst (enrich plain_runtime answering_world ''Backend Developer'' [1, 0] two_jobs))
   \<and> fst (enrichJob plain_runtime answering_world ''Backend Developer'' 0 (two_jobs ! 0)) = []
   \<and> (\<exists>out. snd (enrich plain_runtime answering_world ''Backend Developer'' [1, 0] two_jobs)
                = Some (Jobs out)
            \<and> companyInsight (out ! 0) = None \<and> companyInsight (out ! 1) \<noteq> None)"
proof -
  note inst = lookup_skipped_without_employer
    [of plain_runtime answering_world "''Backend Developer''" "[1, 0]" two_jobs]
  have len: "min (length two_jobs) 12 = 2"
    by (simp add: two_jobs_def)
  have blank: "case employer_name (two_jobs ! 0) of None \<Rightarrow> True | Some s \<Rightarrow> trim s = []"
    by (simp add: two_jobs_def sparse_job_def trim_def is_space_def)
  have "distinct [1, 0 :: nat]" and "set [1, 0 :: nat] = {..<min (length two_jobs) 12}"
    unfolding len by auto
  moreover have "\<forall>i<min (length two_jobs) 12.
      \<exists>r. snd (enrichJob plain_runtime answering_world ''Backend Developer'' i (two_jobs ! i)) = Inr r"
    unfolding len by (simp add: enrichJob_no_salary two_jobs_no_salary)
  ultimately obtain out
    where out: "snd (enrich plain_runtime answering_world ''Backend Developer'' [1, 0] two_jobs)
                  = Some (Jobs out)"
    using enrich_fulfils by blast
  from enrich_Jobs[OF out] have l: "length out = 2"
    and second: "snd (enrichJob plain_runtime answering_world ''Backend Developer'' 1 (two_jobs ! 1)) = Inr (out ! 1)"
    unfolding len by simp_all
  have name1: "ensureString (str (employer_name (two_jobs ! 1))) = Some ''Acme Corp''"
    by (simp add: two_jobs_def sparse_job_def ensureString_def str_def trim_def is_space_def)
  from enrichJob_insight[OF second name1]
  have "fetchCompanyInsight (fetch answering_world 1) ''Acme Corp''
               = Inr (companyInsight (out ! 1))"
    by simp
  moreover have "fetchCompanyInsight (fetch answering_world 1) ''Acme Corp'' \<noteq> Inr None"
    by (simp add: fetchCompanyInsight_def fetchCompanyInsight_try_def answering_world_def
        ok_def)
  ultimately have one: "companyInsight (out ! 1) \<noteq> None"
    by auto
  have calls: "fst (enrich plain_runtime answering_world ''Backend Developer'' [1, 0] two_jobs) = [''Acme Corp'']"
    by (simp add: enrich_calls enrichJob_calls two_jobs_def sparse_job_def ensureString_def
        str_def trim_def is_space_def enumerate_eq_zip upt_rec)
  have "0 < length two_jobs" by (simp add: two_jobs_def)
  with inst blank out l have "companyInsight (out ! 0) = None"
    and "fst (enrichJob plain_runtime answering_world ''Backend Developer'' 0 (two_jobs ! 0)) = []"
    and "''Unknown company'' \<notin> set (fst (enrich plain_runtime answering_world ''Backend Developer'' [1, 0] two_jobs))"
    by auto
  with out one calls show ?thesis by blast
qed


text \<open>
  Claim C10. The remote flag of an enriched listing is a boolean, true exactly when the
  field \<^verbatim>\<open>job_is_remote\<close> of the raw listing is \<^verbatim>\<open>true\<close>; an absent or false field gives
  \<^verbatim>\<open>false\<close>.
\<close>

theorem remote_is_boolean_of_flag:
  "(\<forall>r. snd (enrichJob rt w p i job) = Inr r \<longrightarrow> remote r = (job_is_remote job = Some True))
   \<and> (\<forall>out k. snd (enrich rt w p order jobs) = Some (Jobs out) \<and> k < length out \<longrightarrow>
         remote (out ! k) = (job_is_remote (jobs ! k) = Some True))"
proof -
  have flag: "ToBoolean v = (v = Some True)" for v
    by (cases v) (simp_all add: ToBoolean_def)
  have one: "remote r = (job_is_remote job = Some True)"
    if "snd (enrichJob rt w p i job) = Inr r" for r i job
    using enrichJob_fields(1)[OF that] by (simp add: flag)
  have "remote (out ! k) = (job_is_remote (jobs ! k) = Some True)"
    if "snd (enrich rt w p order jobs) = Some (Jobs out)" and "k < length out" for out k
  proof -
    from enrich_Jobs(2)[OF that(1)] that(2)
    have "snd (enrichJob rt w p k (jobs ! k)) = Inr (out ! k)" by blast
    then show ?thesis by (rule one)
  qed
  with one show ?thesis by blast
qed

theorem remote_is_boolean_of_flag_witness:
  "\<exists>out. snd (enrich plain_runtime answering_world ''Backend Developer'' [0, 1] two_jobs)
            = Some (Jobs out)
         \<and> remote (out ! 0) = True \<and> remote (out ! 1) = False"
proof -
  note inst = remote_is_boolean_of_flag
    [of plain_runtime answering_world "''Backend Developer''" 0 "two_jobs ! 0" "[0, 1]" two_jobs]
  have len: "min (length two_jobs) 12 = 2"
    by (simp add: two_jobs_def)
  have "distinct [0, 1 :: nat]" and "set [0, 1 :: nat] = {..<min (length two_jobs) 12}"
    unfolding len by auto
  moreover have "\<forall>i<min (length two_jobs) 12.
      \<exists>r. snd (enrichJob plain_runtime answering_world ''Backend Developer'' i (two_jobs ! i)) = Inr r"
    unfolding len by (simp add: enrichJob_no_salary two_jobs_no_salary)
  ultimately obtain out
    where out: "snd (enrich plain_runtime answering_world ''Backend Developer'' [0, 1] two_jobs)
                  = Some (Jobs out)"
    using enrich_fulfils by blast
  from enrich_Jobs(1)[OF out] have l: "length out = 2"
    unfolding len .
  with inst out have "remote (out ! 0) = (job_is_remote (two_jobs ! 0) = Some True)"
    and "remote (out ! 1) = (job_is_remote (two_jobs ! 1) = Some True)"
    by simp_all
  then have "remote (out ! 0) = True" and "remote (out ! 1) = False"
    by (simp_all add: two_jobs_def sparse_job_def)
  with out show ?thesis by blast
qed

end
